theory Spec2Isabelle
  imports Main "HOL-Library.Word"
begin

unbundle bit_operations_syntax

section \<open>Basic types and constants of fileio.c\<close>

type_synonym byte = "8 word"
type_synonym U32 = "32 word"
type_synonym U64 = "64 word"

definition BIT5 :: byte where "BIT5 = 0x20"
definition BIT6 :: byte where "BIT6 = 0x40"
definition BIT7 :: byte where "BIT7 = 0x80"

text \<open>The macro \<^verbatim>\<open>_6BITS\<close> (an Isabelle name cannot start with an underscore).\<close>

definition SIXBITS :: byte where "SIXBITS = 0x3F"

definition FIO_magicNumber_fse :: U32 where "FIO_magicNumber_fse = 0x183E2309"
definition FIO_magicNumber_huff0 :: U32 where "FIO_magicNumber_huff0 = 0x183E3309"
definition FIO_magicNumber_zlibh :: U32 where "FIO_magicNumber_zlibh = 0x183E4309"
definition FIO_maxBlockSizeID :: nat where "FIO_maxBlockSizeID = 6"
definition FIO_maxBlockHeaderSize :: nat where "FIO_maxBlockHeaderSize = 5"
definition FIO_FRAMEHEADERSIZE :: nat where "FIO_FRAMEHEADERSIZE = 5"
definition FIO_BLOCKSIZEID_DEFAULT :: nat where "FIO_BLOCKSIZEID_DEFAULT = 5"
definition FSE_CHECKSUM_SEED :: U32 where "FSE_CHECKSUM_SEED = 0"

text \<open>\<^verbatim>\<open>typedef enum { bt_compressed, bt_raw, bt_rle, bt_crc } bType_t;\<close> with the
  enumerators' values 0, 1, 2, 3.\<close>

datatype bType_t = bt_compressed | bt_raw | bt_rle | bt_crc

fun bType_code :: "bType_t \<Rightarrow> byte" where
  "bType_code bt_compressed = 0"
| "bType_code bt_raw = 1"
| "bType_code bt_rle = 2"
| "bType_code bt_crc = 3"

text \<open>The value \<^verbatim>\<open>(ip[0] & (BIT7+BIT6)) >> 6\<close> lies in 0..3; the decoder switches on it.\<close>

definition bType_of_code :: "byte \<Rightarrow> bType_t" where
  "bType_of_code c =
     (if c = 0 then bt_compressed else if c = 1 then bt_raw else if c = 2 then bt_rle else bt_crc)"

datatype FIO_compressor_t = FIO_fse | FIO_huff0 | FIO_zlibh

text \<open>The file's global parameters (\<^verbatim>\<open>g_displayLevel\<close>, \<^verbatim>\<open>g_overwrite\<close>,
  \<^verbatim>\<open>g_blockSizeId\<close>, \<^verbatim>\<open>g_compressor\<close>), passed explicitly.\<close>

record config =
  g_displayLevel :: nat
  g_overwrite :: bool
  g_blockSizeId :: nat
  g_compressor :: FIO_compressor_t

text \<open>The values the globals are initialised with.\<close>

definition default_config :: config where
  "default_config =
     \<lparr> g_displayLevel = 2, g_overwrite = False, g_blockSizeId = FIO_BLOCKSIZEID_DEFAULT,
       g_compressor = FIO_fse \<rparr>"

subsection \<open>Memory operations\<close>

definition FIO_writeLE32 :: "U32 \<Rightarrow> byte list" where
  "FIO_writeLE32 val32 =
     [ucast val32, ucast (drop_bit 8 val32), ucast (drop_bit 16 val32), ucast (drop_bit 24 val32)]"

text \<open>\<^verbatim>\<open>FIO_readLE32\<close> reads \<^verbatim>\<open>p[0..3]\<close>; its one caller has checked that 5 bytes were read.\<close>

definition FIO_readLE32 :: "byte list \<Rightarrow> U32" where
  "FIO_readLE32 p =
     ucast (p ! 0) + push_bit 8 (ucast (p ! 1)) + push_bit 16 (ucast (p ! 2))
       + push_bit 24 (ucast (p ! 3))"

text \<open>\<^verbatim>\<open>static int FIO_blockID_to_blockSize(int id) { return (1 << id) KB; }\<close>, where
  \<^verbatim>\<open>KB\<close> is \<^verbatim>\<open>*(1U<<10)\<close>. The natural number below is the C value for every
  \<^verbatim>\<open>id\<close> up to 20; the decoder admits ids up to 6, and the encoder's
  \<^verbatim>\<open>g_blockSizeId\<close> has no setter in this file.\<close>

definition FIO_blockID_to_blockSize :: "nat \<Rightarrow> nat" where
  "FIO_blockID_to_blockSize ident = 2 ^ ident * 1024"

text \<open>A buffer is the list of its bytes; its length is its capacity. \<open>store\<close> writes
  \<open>bs\<close> at offset \<open>off\<close>; callers check that it fits.\<close>

definition store :: "byte list \<Rightarrow> nat \<Rightarrow> byte list \<Rightarrow> byte list" where
  "store buf off bs = take off buf @ bs @ drop (off + length bs) buf"

section \<open>External collaborators\<close>

text \<open>
  The codecs, the hash, the cipher and the random source are compiled from other files
  (\<^verbatim>\<open>fse.h\<close>, \<^verbatim>\<open>huff0.h\<close>, \<^verbatim>\<open>zlibh.h\<close>, \<^verbatim>\<open>xxhash.h\<close>, \<^verbatim>\<open>salsa20/salsa20.h\<close>,
  \<^verbatim>\<open>isaac64/isaac64.h\<close>, \<^verbatim>\<open>fileio.h\<close>); they are parameters of the model.

  \<^item> A compressor \<^verbatim>\<open>size_t f(void* dst, size_t dstSize, const void* src, size_t srcSize,
    unsigned scrambler)\<close> is a function of \<open>dstSize\<close>, the source bytes and the scrambler.
    \<open>None\<close> is a result for which \<^verbatim>\<open>FSE_isError\<close> holds; \<open>Some out\<close> is the result
    \<open>length out\<close>, with \<open>out\<close> the bytes left in \<^verbatim>\<open>dst\<close>. So \<open>Some []\<close> is the result 0
    and a one-element list the result 1.
  \<^item> A decompressor likewise: \<open>Some out\<close> is the result \<open>length out\<close>, the regenerated
    bytes \<open>out\<close> left at the start of \<^verbatim>\<open>dst\<close>.
  \<^item> \<open>XXH32 bytes seed\<close> is the hash of the library; a streaming state is the seed and
    the bytes fed so far, since \<^verbatim>\<open>XXH32_digest\<close> after a sequence of updates is the
    hash of the concatenation.
  \<^item> \<open>salsa20 message key nonce\<close> is the content of \<^verbatim>\<open>message\<close> after the call
    \<^verbatim>\<open>salsa20(message, mlen, key, nonce)\<close>, for a message of \<open>mlen\<close> bytes.
  \<^item> \<open>getNumber64ForPassword password i\<close> is the result of the call on the pointer
    \<^verbatim>\<open>password + i\<close>.
  \<^item> \<open>sizeof_ptr\<close> is \<^verbatim>\<open>sizeof(char*)\<close>; \<open>char_is_signed\<close> says whether plain
    \<^verbatim>\<open>char\<close> is a signed type.
  \<^item> \<open>malloc n\<close> is \<open>None\<close> when the allocation fails, else the (indeterminate) bytes
    the fresh block of \<open>n\<close> bytes holds.
  \<^item> \<open>stdinmark\<close>, \<open>stdoutmark\<close> and \<open>nulmark\<close> are the reserved file names of
    \<^verbatim>\<open>fileio.h\<close>.
\<close>

record externals =
  FSE_compress :: "nat \<Rightarrow> byte list \<Rightarrow> U32 \<Rightarrow> byte list option"
  HUF_compress :: "nat \<Rightarrow> byte list \<Rightarrow> U32 \<Rightarrow> byte list option"
  ZLIBH_compress :: "byte list \<Rightarrow> byte list option"
  FSE_decompress :: "nat \<Rightarrow> byte list \<Rightarrow> U32 \<Rightarrow> byte list option"
  HUF_decompress :: "nat \<Rightarrow> byte list \<Rightarrow> U32 \<Rightarrow> byte list option"
  ZLIBH_decompress :: "byte list \<Rightarrow> byte list option"
  FSE_compressBound :: "nat \<Rightarrow> nat"
  XXH32 :: "byte list \<Rightarrow> U32 \<Rightarrow> U32"
  salsa20 :: "byte list \<Rightarrow> byte list \<Rightarrow> U64 \<Rightarrow> byte list"
  getNumber64ForPassword :: "string \<Rightarrow> nat \<Rightarrow> U64"
  sizeof_ptr :: nat
  char_is_signed :: bool
  malloc :: "nat \<Rightarrow> byte list option"
  stdinmark :: string
  stdoutmark :: string
  nulmark :: string

text \<open>How a run ends before its \<^verbatim>\<open>return\<close>: \<^verbatim>\<open>EXM_THROW(error, ...)\<close> prints a
  message and calls \<^verbatim>\<open>exit(error)\<close>; an integer division by zero and a write past the
  end of an allocated buffer are undefined behaviour, at which the model stops.\<close>

datatype failure = Exit nat | DivisionByZero | BufferOverrun

text \<open>\<open>malloc\<close> with the length of the block enforced.\<close>

definition alloc :: "externals \<Rightarrow> nat \<Rightarrow> byte list option" where
  "alloc e n = map_option (\<lambda>g. take n (g @ replicate n 0)) (malloc e n)"

text \<open>\<^verbatim>\<open>salsa20(buf, n, key, nonce)\<close>: the first \<open>n\<close> bytes of \<open>buf\<close> are replaced by the
  cipher's output for them (every buffer of this file holds at least 1024 bytes).\<close>

definition salsa20_inplace :: "externals \<Rightarrow> byte list \<Rightarrow> nat \<Rightarrow> byte list \<Rightarrow> U64 \<Rightarrow> byte list" where
  "salsa20_inplace e buf n k nc =
     (let m = take n buf; c = salsa20 e m k nc
      in store buf 0 (take (length m) (c @ drop (length c) m)))"

text \<open>The globals \<^verbatim>\<open>uint8_t key[32] = { 0 }; uint64_t nonce = 0;\<close> and the local array
  \<^verbatim>\<open>key[] = { "keykey" }\<close> that hides the global one inside \<^verbatim>\<open>FIO_compressFilename\<close>
  (seven bytes, the terminator included).\<close>

definition key :: "byte list" where "key = replicate 32 0"
definition nonce :: U64 where "nonce = 0"
definition key_local :: "byte list" where
  "key_local = [0x6B, 0x65, 0x79, 0x6B, 0x65, 0x79, 0x00]"

section \<open>The keystream selector\<close>

text \<open>\<^verbatim>\<open>strlen\<close> counts up to the first NUL.\<close>

definition strlen :: "string \<Rightarrow> nat" where
  "strlen s = length (takeWhile (\<lambda>c. c \<noteq> CHR 0x00) s)"

text \<open>\<^verbatim>\<open>password[i]\<close>; position \<open>length password\<close> holds the terminator.\<close>

definition char_at :: "string \<Rightarrow> nat \<Rightarrow> char" where
  "char_at s i = (if i < length s then s ! i else CHR 0x00)"

text \<open>The conversion \<^verbatim>\<open>(unsigned)c\<close> of a \<^verbatim>\<open>char\<close>: sign-extended where \<^verbatim>\<open>char\<close> is
  signed.\<close>

definition char_to_unsigned :: "externals \<Rightarrow> char \<Rightarrow> U32" where
  "char_to_unsigned e c =
     (if char_is_signed e then scast (of_char c :: byte) else ucast (of_char c :: byte))"

text \<open>\<^verbatim>\<open>abs(v)\<close> for a 64-bit \<open>v\<close>: \<^verbatim>\<open>abs\<close> takes an \<^verbatim>\<open>int\<close>, so the argument is cut to
  its low 32 bits; the result, an \<^verbatim>\<open>int\<close>, is converted to \<^verbatim>\<open>unsigned\<close> by the \<^verbatim>\<open>%\<close>
  that follows.\<close>

definition c_abs :: "U64 \<Rightarrow> U32" where
  "c_abs v = (let i = (ucast v :: U32) in if sint i < 0 then - i else i)"

text \<open>
  \<^verbatim>\<open>static int password_length = 0;\<close>
  \<^verbatim>\<open>static unsigned simlple_scrambler(const char * password, int index)\<close>
  \<^verbatim>\<open>{ return abs(getNumber64ForPassword(password + index))
             % (unsigned)password[index % password_length]; }\<close>
  The global \<^verbatim>\<open>password_length\<close> is the second argument. Both \<^verbatim>\<open>%\<close> divide: the inner
  one by \<^verbatim>\<open>password_length\<close>, the outer one by the character read.
\<close>

definition simlple_scrambler :: "externals \<Rightarrow> nat \<Rightarrow> string \<Rightarrow> nat \<Rightarrow> failure + U32" where
  "simlple_scrambler e password_length password index =
     (if password_length = 0 then Inl DivisionByZero
      else let d = char_to_unsigned e (char_at password (index mod password_length))
           in if d = 0 then Inl DivisionByZero
              else Inr (c_abs (getNumber64ForPassword e password index) mod d))"

definition empty_scrambler :: "string option \<Rightarrow> nat \<Rightarrow> failure + U32" where
  "empty_scrambler password index = Inr 0"

text \<open>
  Each entry point chooses the function once:
  \<^verbatim>\<open>if (password != NULL) { password_length = strlen(password);
                           scrambler_func = simlple_scrambler; }\<close>
  \<^verbatim>\<open>else { scrambler_func = empty_scrambler; }\<close>
  \<open>scrambler_func e password index\<close> is the later call \<^verbatim>\<open>scrambler_func(password, index)\<close>;
  a \<^verbatim>\<open>NULL\<close> password is \<open>None\<close>.
\<close>

definition scrambler_func :: "externals \<Rightarrow> string option \<Rightarrow> nat \<Rightarrow> failure + U32" where
  "scrambler_func e password index =
     (case password of
        None \<Rightarrow> empty_scrambler password index
      | Some p \<Rightarrow> simlple_scrambler e (strlen p) p index)"

section \<open>Files\<close>

text \<open>
  The two streams of one operation: the unread bytes of the source, the bytes written
  to the destination so far, the number of bytes the destination can still take
  (\<^verbatim>\<open>fwrite\<close> writes fewer bytes than asked once it is used up), and whether each
  handle is open. \<^verbatim>\<open>fread\<close> returns fewer bytes than asked only at the end of the
  source.
\<close>

record streams =
  finput :: "byte list"
  foutput :: "byte list"
  space :: nat
  finput_open :: bool
  foutput_open :: bool

definition fread :: "nat \<Rightarrow> streams \<Rightarrow> byte list \<times> streams" where
  "fread n s = (take n (finput s), s\<lparr>finput := drop n (finput s)\<rparr>)"

definition fwrite :: "byte list \<Rightarrow> streams \<Rightarrow> nat \<times> streams" where
  "fwrite bs s =
     (let k = min (length bs) (space s)
      in (k, s\<lparr>foutput := foutput s @ take k bs, space := space s - k\<rparr>))"

definition fclose_both :: "streams \<Rightarrow> streams" where
  "fclose_both s = s\<lparr>finput_open := False, foutput_open := False\<rparr>"

text \<open>What \<^verbatim>\<open>fopen\<close> and \<^verbatim>\<open>getchar\<close> see: the files that exist with their contents, the
  bytes waiting on standard input, the names \<^verbatim>\<open>fopen(name, "wb")\<close> can open, and the
  room left for output.\<close>

record world =
  files :: "string \<Rightarrow> byte list option"
  stdin_data :: "byte list"
  can_create :: "string \<Rightarrow> bool"
  free_space :: nat

text \<open>
  \<^verbatim>\<open>get_fileHandle\<close> (lines 269-313). The source is opened first; its handle stays
  open when a later check exits. The overwrite prompt reads one character from
  standard input, which is also the source when the source is \<^verbatim>\<open>stdinmark\<close>.
  \<^verbatim>\<open>fopen(output_filename, "wb")\<close> truncates: a source of the same name is empty
  afterwards.
\<close>

definition get_fileHandle ::
  "externals \<Rightarrow> config \<Rightarrow> world \<Rightarrow> string \<Rightarrow> string \<Rightarrow> (failure \<times> streams) + streams" where
  "get_fileHandle e g w input_filename output_filename =
     (let from_stdin = (input_filename = stdinmark e);
          pfinput = (if from_stdin then Some (stdin_data w) else files w input_filename);
          s0 = \<lparr> finput = (case pfinput of None \<Rightarrow> [] | Some d \<Rightarrow> d), foutput = [],
                 space = free_space w, finput_open = (pfinput \<noteq> None), foutput_open = False \<rparr>
      in if output_filename = stdoutmark e then
           (if pfinput = None then Inl (Exit 12, s0\<lparr>foutput_open := True\<rparr>)
            else Inr (s0\<lparr>foutput_open := True\<rparr>))
         else
           let found = (output_filename \<noteq> nulmark e \<and> files w output_filename \<noteq> None);
               ask = (found \<and> \<not> g_overwrite g)
           in if ask \<and> g_displayLevel g \<le> 1 then Inl (Exit 11, s0)
              else
                let ch = (case stdin_data w of [] \<Rightarrow> (0xFF :: byte) | c # _ \<Rightarrow> c);
                    s1 = (if ask \<and> from_stdin then s0\<lparr>finput := drop 1 (finput s0)\<rparr> else s0)
                in if ask \<and> ch \<noteq> 0x59 \<and> ch \<noteq> 0x79 then Inl (Exit 11, s1)
                   else
                     let opened = can_create w output_filename;
                         s2 = (if opened \<and> \<not> from_stdin \<and> input_filename = output_filename
                               then s1\<lparr>finput := []\<rparr> else s1)
                               \<lparr>foutput_open := opened\<rparr>
                     in if pfinput = None then Inl (Exit 12, s2)
                        else if \<not> opened then Inl (Exit 13, s2)
                        else Inr s2)"

section \<open>The simple frame format: compression\<close>

text \<open>The streaming hash state: \<^verbatim>\<open>XXH32_reset\<close>, \<^verbatim>\<open>XXH32_update\<close>, \<^verbatim>\<open>XXH32_digest\<close>.\<close>

record XXH32_state_t =
  xxh_seed :: U32
  xxh_fed :: "byte list"

definition XXH32_reset :: "U32 \<Rightarrow> XXH32_state_t" where
  "XXH32_reset seed = \<lparr> xxh_seed = seed, xxh_fed = [] \<rparr>"

definition XXH32_update :: "XXH32_state_t \<Rightarrow> byte list \<Rightarrow> XXH32_state_t" where
  "XXH32_update st bs = st\<lparr>xxh_fed := xxh_fed st @ bs\<rparr>"

definition XXH32_digest :: "externals \<Rightarrow> XXH32_state_t \<Rightarrow> U32" where
  "XXH32_digest e st = XXH32 e (xxh_fed st) (xxh_seed st)"

text \<open>\<^verbatim>\<open>FIO_ZLIBH_compress\<close> (lines 316-321) drops \<^verbatim>\<open>dstSize\<close> and the scrambler.\<close>

definition FIO_ZLIBH_compress :: "externals \<Rightarrow> nat \<Rightarrow> byte list \<Rightarrow> U32 \<Rightarrow> byte list option" where
  "FIO_ZLIBH_compress e dstSize src scrambler = ZLIBH_compress e src"

text \<open>The \<^verbatim>\<open>switch (g_compressor)\<close> of lines 388-404. Its \<^verbatim>\<open>default\<close> branch
  (\<^verbatim>\<open>EXM_THROW(20, ...)\<close>) needs a value outside the enumeration.\<close>

definition select_compressor ::
  "externals \<Rightarrow> FIO_compressor_t \<Rightarrow> (nat \<Rightarrow> byte list \<Rightarrow> U32 \<Rightarrow> byte list option) \<times> U32" where
  "select_compressor e c =
     (case c of
        FIO_fse \<Rightarrow> (FSE_compress e, FIO_magicNumber_fse)
      | FIO_huff0 \<Rightarrow> (HUF_compress e, FIO_magicNumber_huff0)
      | FIO_zlibh \<Rightarrow> (FIO_ZLIBH_compress e, FIO_magicNumber_zlibh))"

text \<open>
  The header bytes that the \<^verbatim>\<open>switch (cSize)\<close> of lines 463-524 builds in
  \<^verbatim>\<open>out_buff\<close>, for a block of \<open>inSize\<close> bytes whose compressor returned \<open>cSize\<close>:
  \<^verbatim>\<open>case 0\<close> (raw), \<^verbatim>\<open>case 1\<close> (rle), \<^verbatim>\<open>default\<close> (compressed), each with its
  \<^verbatim>\<open>if (inSize == inputBlockSize)\<close>. The casts \<^verbatim>\<open>(BYTE)\<close> keep the low 8 bits.
\<close>

definition block_header :: "nat \<Rightarrow> nat \<Rightarrow> nat \<Rightarrow> byte list" where
  "block_header inputBlockSize cSize inSize =
     (if cSize = 0 then
        (if inSize = inputBlockSize then [push_bit 6 (bType_code bt_raw) + BIT5]
         else [push_bit 6 (bType_code bt_raw), of_nat (inSize div 256), of_nat inSize])
      else if cSize = 1 then
        (if inSize = inputBlockSize then [push_bit 6 (bType_code bt_rle) + BIT5]
         else [push_bit 6 (bType_code bt_raw), of_nat (inSize div 256), of_nat inSize])
      else
        (if inSize = inputBlockSize then
           [push_bit 6 (bType_code bt_compressed) + BIT5, of_nat (cSize div 256), of_nat cSize]
         else
           [push_bit 6 (bType_code bt_compressed), of_nat (inSize div 256), of_nat inSize,
            of_nat (cSize div 256), of_nat cSize]))"

text \<open>
  The whole \<^verbatim>\<open>switch (cSize)\<close>: what is written for one block, and the amount added
  to \<^verbatim>\<open>compressedfilesize\<close>. \<open>cdata\<close> is the compressor's output (\<open>cSize = length cdata\<close>),
  \<open>in_buff\<close> the input buffer holding the block in its first \<open>inSize\<close> bytes. Every
  byte of \<^verbatim>\<open>out_buff\<close> that is written to the file has been assigned in the same
  iteration, so \<^verbatim>\<open>out_buff\<close> itself is not part of the state.
\<close>

definition write_cBlock ::
  "nat \<Rightarrow> byte list \<Rightarrow> byte list \<Rightarrow> nat \<Rightarrow> streams \<Rightarrow> (failure \<times> streams) + (nat \<times> streams)" where
  "write_cBlock inputBlockSize cdata in_buff inSize io =
     (let cSize = length cdata;
          hdr = block_header inputBlockSize cSize inSize;
          headerSize = length hdr
      in if cSize = 0 then
           (let (n1, io1) = fwrite hdr io
            in if n1 \<noteq> headerSize then Inl (Exit 24, io1)
               else let (n2, io2) = fwrite (take inSize in_buff) io1
                    in if n2 \<noteq> inSize then Inl (Exit 25, io2)
                       else Inr (inSize + headerSize, io2))
         else if cSize = 1 then
           (let (n1, io1) = fwrite (hdr @ [in_buff ! 0]) io
            in if n1 \<noteq> headerSize + 1 then Inl (Exit 26, io1)
               else Inr (headerSize + 1, io1))
         else
           (let (n1, io1) = fwrite (hdr @ cdata) io
            in if n1 \<noteq> headerSize + cSize then Inl (Exit 27, io1)
               else Inr (headerSize + cSize, io1)))"

text \<open>The local variables of \<^verbatim>\<open>FIO_compressFilename\<close> that live across iterations.
  The byte counters are \<^verbatim>\<open>U64\<close>; the model counts in \<open>nat\<close>.\<close>

record cstate =
  c_io :: streams
  c_in_buff :: "byte list"
  c_xxhState :: XXH32_state_t
  c_index :: nat
  c_filesize :: nat
  c_compressedfilesize :: nat

datatype 'a loop = Break 'a | Continue 'a

text \<open>
  One turn of the main compression loop (lines 444-527), in the order of the source:
  \<^verbatim>\<open>fread\<close> into \<^verbatim>\<open>in_buff\<close>; \<^verbatim>\<open>salsa20(in_buff, sizeof(in_buff), key, nonce)\<close>, where
  \<^verbatim>\<open>in_buff\<close> is a \<^verbatim>\<open>char*\<close> and \<^verbatim>\<open>key\<close> the local array; \<^verbatim>\<open>break\<close> on an empty read;
  \<^verbatim>\<open>XXH32_update(&xxhState, in_buff, inSize)\<close>; the compressor on \<^verbatim>\<open>in_buff\<close> with
  \<^verbatim>\<open>scrambler_func(password, index++)\<close>; the block.
\<close>

definition compress_iteration ::
  "externals \<Rightarrow> config \<Rightarrow> string option \<Rightarrow> cstate \<Rightarrow> (failure \<times> streams) + cstate loop" where
  "compress_iteration e g password st =
     (let inputBlockSize = FIO_blockID_to_blockSize (g_blockSizeId g);
          (data, io1) = fread inputBlockSize (c_io st);
          inSize = length data;
          in_buff = salsa20_inplace e (store (c_in_buff st) 0 data) (sizeof_ptr e) key_local nonce
      in if inSize = 0 then Inr (Break (st\<lparr>c_io := io1, c_in_buff := in_buff\<rparr>))
         else
           let filesize = c_filesize st + inSize;
               xxhState = XXH32_update (c_xxhState st) (take inSize in_buff)
           in case scrambler_func e password (c_index st) of
                Inl f \<Rightarrow> Inl (f, io1)
              | Inr scrambler \<Rightarrow>
                  (case fst (select_compressor e (g_compressor g))
                          (FSE_compressBound e inputBlockSize) (take inSize in_buff) scrambler of
                     None \<Rightarrow> Inl (Exit 23, io1)
                   | Some cdata \<Rightarrow>
                       (case write_cBlock inputBlockSize cdata in_buff inSize io1 of
                          Inl x \<Rightarrow> Inl x
                        | Inr (n, io2) \<Rightarrow>
                            Inr (Continue
                              \<lparr> c_io = io2, c_in_buff = in_buff, c_xxhState = xxhState,
                                c_index = c_index st + 1, c_filesize = filesize,
                                c_compressedfilesize = c_compressedfilesize st + n \<rparr>))))"

text \<open>Every turn that continues has read at least one byte, so the loop ends.\<close>

lemma write_cBlock_finput:
  "write_cBlock ibs cdata in_buff n io = Inr (r, io2) \<Longrightarrow> finput io2 = finput io"
  unfolding write_cBlock_def Let_def fwrite_def
  by (auto split: if_splits)

lemma compress_iteration_less:
  assumes "compress_iteration e g password st = Inr (Continue st')"
  shows "length (finput (c_io st')) < length (finput (c_io st))"
proof -
  let ?n = "FIO_blockID_to_blockSize (g_blockSizeId g)"
  let ?data = "take ?n (finput (c_io st))"
  let ?io1 = "c_io st\<lparr>finput := drop ?n (finput (c_io st))\<rparr>"
  from assms have ne: "length ?data \<noteq> 0"
    by (auto simp: compress_iteration_def fread_def Let_def split: if_splits)
  from assms obtain r cdata in_buff where
    "write_cBlock ?n cdata in_buff (length ?data) ?io1 = Inr (r, c_io st')"
    by (auto simp: compress_iteration_def fread_def Let_def
        split: if_splits sum.splits option.splits)
  then have "finput (c_io st') = drop ?n (finput (c_io st))"
    by (simp add: write_cBlock_finput)
  with ne show ?thesis by auto
qed

function compress_loop ::
  "externals \<Rightarrow> config \<Rightarrow> string option \<Rightarrow> cstate \<Rightarrow> (failure \<times> streams) + cstate" where
  "compress_loop e g password st =
     (case compress_iteration e g password st of
        Inl x \<Rightarrow> Inl x
      | Inr (Break st') \<Rightarrow> Inr st'
      | Inr (Continue st') \<Rightarrow> compress_loop e g password st')"
  by pat_completeness auto
termination
  by (relation "measure (\<lambda>(e, g, password, st). length (finput (c_io st)))")
     (auto dest: compress_iteration_less)

text \<open>The three bytes of the checksum block (lines 529-539).\<close>

definition checksum_block :: "U32 \<Rightarrow> byte list" where
  "checksum_block digest =
     (let checksum = drop_bit 5 digest AND (push_bit 22 1 - 1)
      in [ucast (drop_bit 16 checksum + push_bit 6 (ucast (bType_code bt_crc))),
          ucast (drop_bit 8 checksum), ucast checksum])"

text \<open>
  The body of \<^verbatim>\<open>FIO_compressFilename\<close> (lines 369-553): the local variables as they
  are at the \<^verbatim>\<open>return\<close>, or the failure with the streams as they were left. Not in
  the model, because nothing that is written depends on them: the RC4 calls \<^verbatim>\<open>ksa\<close>
  and \<^verbatim>\<open>prga\<close> on local arrays that are never read, the store
  \<^verbatim>\<open>FIO_writeLE64(out_buff, getNumber64())\<close> into bytes that are assigned again before
  they are written, and the progress display.
\<close>

definition FIO_compressFilename_run ::
  "externals \<Rightarrow> config \<Rightarrow> world \<Rightarrow> string \<Rightarrow> string \<Rightarrow> string option
     \<Rightarrow> (failure \<times> streams) + cstate" where
  "FIO_compressFilename_run e g w output_filename input_filename password =
     (let inputBlockSize = FIO_blockID_to_blockSize (g_blockSizeId g)
      in case get_fileHandle e g w input_filename output_filename of
           Inl x \<Rightarrow> Inl x
         | Inr io0 \<Rightarrow>
             let magicNumber = snd (select_compressor e (g_compressor g))
             in if inputBlockSize = 0 then Inl (Exit 0, io0)
                else
                  (case (alloc e inputBlockSize,
                         alloc e (FSE_compressBound e inputBlockSize + 5)) of
                     (Some in_buff, Some out_buff) \<Rightarrow>
                       let (n, io1) =
                             fwrite (FIO_writeLE32 magicNumber @ [of_nat (g_blockSizeId g)]) io0
                       in if n \<noteq> FIO_FRAMEHEADERSIZE then Inl (Exit 22, io1)
                          else
                            (case compress_loop e g password
                                    \<lparr> c_io = io1, c_in_buff = in_buff,
                                      c_xxhState = XXH32_reset FSE_CHECKSUM_SEED, c_index = 0,
                                      c_filesize = 0,
                                      c_compressedfilesize = FIO_FRAMEHEADERSIZE \<rparr> of
                               Inl x \<Rightarrow> Inl x
                             | Inr st \<Rightarrow>
                                 let (n3, io3) =
                                       fwrite (checksum_block (XXH32_digest e (c_xxhState st)))
                                         (c_io st)
                                 in if n3 \<noteq> 3 then Inl (Exit 28, io3)
                                    else Inr (st\<lparr>c_io := fclose_both io3,
                                               c_compressedfilesize :=
                                                 c_compressedfilesize st + 3\<rparr>))
                   | _ \<Rightarrow> Inl (Exit 21, io0)))"

text \<open>\<^verbatim>\<open>FIO_compressFilename\<close> returns \<^verbatim>\<open>compressedfilesize\<close>; the streams are kept
  beside it.\<close>

definition FIO_compressFilename ::
  "externals \<Rightarrow> config \<Rightarrow> world \<Rightarrow> string \<Rightarrow> string \<Rightarrow> string option
     \<Rightarrow> (failure \<times> streams) + (nat \<times> streams)" where
  "FIO_compressFilename e g w output_filename input_filename password =
     map_sum id (\<lambda>st. (c_compressedfilesize st, c_io st))
       (FIO_compressFilename_run e g w output_filename input_filename password)"

section \<open>The simple frame format: decompression\<close>

definition FIO_ZLIBH_decompress :: "externals \<Rightarrow> nat \<Rightarrow> byte list \<Rightarrow> U32 \<Rightarrow> byte list option" where
  "FIO_ZLIBH_decompress e dstSize src scrambler = ZLIBH_decompress e src"

text \<open>The \<^verbatim>\<open>switch (magicNumber)\<close> of lines 619-632; \<open>None\<close> is its \<^verbatim>\<open>default\<close>.\<close>

definition select_decompressor ::
  "externals \<Rightarrow> U32 \<Rightarrow> (nat \<Rightarrow> byte list \<Rightarrow> U32 \<Rightarrow> byte list option) option" where
  "select_decompressor e magicNumber =
     (if magicNumber = FIO_magicNumber_fse then Some (FSE_decompress e)
      else if magicNumber = FIO_magicNumber_huff0 then Some (HUF_decompress e)
      else if magicNumber = FIO_magicNumber_zlibh then Some (FIO_ZLIBH_decompress e)
      else None)"

text \<open>\<^verbatim>\<open>fread(buf + off, 1, n, finput)\<close>: the bytes read are stored at \<open>off\<close>; storing
  past the end of the buffer is an overrun. The result holds the buffer, the number
  of bytes read and the streams.\<close>

definition fread_buf ::
  "byte list \<Rightarrow> nat \<Rightarrow> nat \<Rightarrow> streams \<Rightarrow> (failure \<times> streams) + (byte list \<times> nat \<times> streams)" where
  "fread_buf buf off n io =
     (let (bs, io') = fread n io
      in if off + length bs > length buf then Inl (BufferOverrun, io')
         else Inr (store buf off bs, length bs, io'))"

text \<open>What the decoder learns from a block header: the type, the full-size flag,
  \<^verbatim>\<open>rSize\<close> and \<^verbatim>\<open>cSize\<close>.\<close>

record block_desc =
  bd_bType :: bType_t
  bd_full :: bool
  bd_rSize :: nat
  bd_cSize :: nat

text \<open>
  Lines 671-696, after the test for \<^verbatim>\<open>bt_crc\<close>: the header byte is \<^verbatim>\<open>ip[0]\<close>; the size
  fields are read into the start of \<^verbatim>\<open>in_buff\<close>. The last case is the \<^verbatim>\<open>default\<close> of
  the \<^verbatim>\<open>switch (bType)\<close>.
\<close>

definition decode_header ::
  "nat \<Rightarrow> byte list \<Rightarrow> nat \<Rightarrow> streams
     \<Rightarrow> (failure \<times> streams) + (block_desc \<times> byte list \<times> streams)" where
  "decode_header blockSize in_buff ip io =
     (let hb = in_buff ! ip;
          bType = bType_of_code (drop_bit 6 (hb AND (BIT7 + BIT6)));
          full = (hb AND BIT5 \<noteq> 0)
      in case (if full then Inr (blockSize, in_buff, io)
               else (case fread_buf in_buff 0 2 io of
                       Inl x \<Rightarrow> Inl x
                     | Inr (b, n, io1) \<Rightarrow>
                         if n \<noteq> 2 then Inl (Exit 35, io1)
                         else Inr (unat (b ! 0) * 256 + unat (b ! 1), b, io1))) of
           Inl x \<Rightarrow> Inl x
         | Inr (rSize, b1, io1) \<Rightarrow>
             (case bType of
                bt_compressed \<Rightarrow>
                  (case fread_buf b1 0 2 io1 of
                     Inl x \<Rightarrow> Inl x
                   | Inr (b2, n, io2) \<Rightarrow>
                       if n \<noteq> 2 then Inl (Exit 36, io2)
                       else Inr (\<lparr> bd_bType = bType, bd_full = full, bd_rSize = rSize,
                                   bd_cSize = unat (b2 ! 0) * 256 + unat (b2 ! 1) \<rparr>, b2, io2))
              | bt_raw \<Rightarrow>
                  Inr (\<lparr> bd_bType = bType, bd_full = full, bd_rSize = rSize, bd_cSize = rSize \<rparr>,
                       b1, io1)
              | bt_rle \<Rightarrow>
                  Inr (\<lparr> bd_bType = bType, bd_full = full, bd_rSize = rSize, bd_cSize = 1 \<rparr>,
                       b1, io1)
              | bt_crc \<Rightarrow> Inl (Exit 37, io1)))"

text \<open>The local variables of \<^verbatim>\<open>FIO_decompressFilename\<close> that live across iterations;
  \<open>d_ip\<close> is the offset of the pointer \<^verbatim>\<open>ip\<close> in \<^verbatim>\<open>in_buff\<close>.\<close>

record dstate =
  d_io :: streams
  d_in_buff :: "byte list"
  d_out_buff :: "byte list"
  d_ip :: nat
  d_xxhState :: XXH32_state_t
  d_index :: nat
  d_filesize :: nat

text \<open>
  The \<^verbatim>\<open>switch (bType)\<close> under "Decode block" (lines 705-720): the new \<^verbatim>\<open>out_buff\<close>,
  \<^verbatim>\<open>rSize\<close> and \<^verbatim>\<open>index\<close>. Only the compressed case calls
  \<^verbatim>\<open>scrambler_func(password, index++)\<close>. \<^verbatim>\<open>out_buff\<close> holds \<open>blockSize\<close> bytes: a
  \<^verbatim>\<open>memset\<close> or a decompressor output longer than that overruns it.
\<close>

definition decode_block ::
  "externals \<Rightarrow> (nat \<Rightarrow> byte list \<Rightarrow> U32 \<Rightarrow> byte list option) \<Rightarrow> string option \<Rightarrow> block_desc
     \<Rightarrow> byte list \<Rightarrow> byte list \<Rightarrow> nat \<Rightarrow> failure + (byte list \<times> nat \<times> nat)" where
  "decode_block e decompressor password bd in_buff out_buff index =
     (case bd_bType bd of
        bt_compressed \<Rightarrow>
          (case scrambler_func e password index of
             Inl f \<Rightarrow> Inl f
           | Inr scrambler \<Rightarrow>
               (case decompressor (bd_rSize bd) (take (bd_cSize bd) in_buff) scrambler of
                  None \<Rightarrow> Inl (Exit 39)
                | Some out \<Rightarrow>
                    if length out > length out_buff then Inl BufferOverrun
                    else Inr (store out_buff 0 out, length out, index + 1)))
      | bt_raw \<Rightarrow> Inr (out_buff, bd_rSize bd, index)
      | bt_rle \<Rightarrow>
          if bd_rSize bd > length out_buff then Inl BufferOverrun
          else Inr (store out_buff 0 (replicate (bd_rSize bd) (in_buff ! 0)), bd_rSize bd, index)
      | bt_crc \<Rightarrow> Inl (Exit 40))"

text \<open>
  One turn of the decoding loop (lines 664-747): the test for the checksum block, the
  header, \<^verbatim>\<open>fread(in_buff, 1, cSize + 1, finput)\<close> (the payload and the next header
  byte), \<^verbatim>\<open>ip = in_buff + cSize\<close>, the block,
  \<^verbatim>\<open>salsa20(out_buff, sizeof(out_buff), key, nonce)\<close> with the global key, and the
  \<^verbatim>\<open>switch (bType)\<close> under "Write block", which writes \<^verbatim>\<open>out_buff\<close> for a compressed
  or rle block and \<^verbatim>\<open>in_buff\<close> for a raw one.
\<close>

definition decompress_iteration ::
  "externals \<Rightarrow> nat \<Rightarrow> (nat \<Rightarrow> byte list \<Rightarrow> U32 \<Rightarrow> byte list option) \<Rightarrow> string option \<Rightarrow> dstate
     \<Rightarrow> (failure \<times> streams) + dstate loop" where
  "decompress_iteration e blockSize decompressor password st =
     (if bType_of_code (drop_bit 6 (d_in_buff st ! d_ip st AND (BIT7 + BIT6))) = bt_crc
      then Inr (Break st)
      else
        case decode_header blockSize (d_in_buff st) (d_ip st) (d_io st) of
          Inl x \<Rightarrow> Inl x
        | Inr (bd, b1, io1) \<Rightarrow>
            let cSize = bd_cSize bd; toReadSize = cSize + 1
            in (case fread_buf b1 0 toReadSize io1 of
                  Inl x \<Rightarrow> Inl x
                | Inr (in_buff, readSize, io2) \<Rightarrow>
                   if readSize \<noteq> toReadSize then Inl (Exit 38, io2)
                   else
                     (case decode_block e decompressor password bd in_buff (d_out_buff st)
                             (d_index st) of
                        Inl f \<Rightarrow> Inl (f, io2)
                      | Inr (out_buff1, rSize, index) \<Rightarrow>
                          let out_buff = salsa20_inplace e out_buff1 (sizeof_ptr e) key nonce;
                              payload = (case bd_bType bd of
                                           bt_raw \<Rightarrow> take cSize in_buff
                                         | _ \<Rightarrow> take rSize out_buff);
                              wSize = (case bd_bType bd of bt_raw \<Rightarrow> cSize | _ \<Rightarrow> rSize);
                              (n, io3) = fwrite payload io2
                          in if n \<noteq> wSize
                             then Inl (Exit (if bd_bType bd = bt_raw then 42 else 41), io3)
                             else Inr (Continue
                                    \<lparr> d_io = io3, d_in_buff = in_buff, d_out_buff = out_buff,
                                      d_ip = cSize,
                                      d_xxhState = XXH32_update (d_xxhState st) payload,
                                      d_index = index,
                                      d_filesize = d_filesize st + wSize \<rparr>))))"

lemma decode_header_finput:
  "decode_header blockSize in_buff ip io = Inr (bd, b1, io1)
     \<Longrightarrow> length (finput io1) \<le> length (finput io)"
  unfolding decode_header_def fread_buf_def fread_def Let_def
  by (auto split: if_splits bType_t.splits sum.splits prod.splits)

lemma decompress_iteration_less:
  assumes "decompress_iteration e blockSize decompressor password st = Inr (Continue st')"
  shows "length (finput (d_io st')) < length (finput (d_io st))"
proof -
  from assms obtain bd b1 io1 where
    h: "decode_header blockSize (d_in_buff st) (d_ip st) (d_io st) = Inr (bd, b1, io1)"
    by (auto simp: decompress_iteration_def split: if_splits sum.splits)
  from assms h obtain in_buff io2 where
    r: "fread_buf b1 0 (bd_cSize bd + 1) io1 = Inr (in_buff, bd_cSize bd + 1, io2)"
    by (auto simp: decompress_iteration_def Let_def split: if_splits sum.splits)
  from assms h r have "finput (d_io st') = finput io2"
    by (auto simp: decompress_iteration_def Let_def fwrite_def
        split: if_splits sum.splits prod.splits)
  moreover from r have "length (finput io2) < length (finput io1)"
    by (auto simp: fread_buf_def fread_def Let_def split: if_splits)
  ultimately show ?thesis
    using decode_header_finput [OF h] by simp
qed

function decompress_loop ::
  "externals \<Rightarrow> nat \<Rightarrow> (nat \<Rightarrow> byte list \<Rightarrow> U32 \<Rightarrow> byte list option) \<Rightarrow> string option \<Rightarrow> dstate
     \<Rightarrow> (failure \<times> streams) + dstate" where
  "decompress_loop e blockSize decompressor password st =
     (case decompress_iteration e blockSize decompressor password st of
        Inl x \<Rightarrow> Inl x
      | Inr (Break st') \<Rightarrow> Inr st'
      | Inr (Continue st') \<Rightarrow> decompress_loop e blockSize decompressor password st')"
  by pat_completeness auto
termination
  by (relation "measure (\<lambda>(e, blockSize, decompressor, password, st). length (finput (d_io st)))")
     (auto dest: decompress_iteration_less)

text \<open>
  The body of \<^verbatim>\<open>FIO_decompressFilename\<close> (lines 586-768): the local variables as they
  are at the \<^verbatim>\<open>return\<close>, or the failure with the streams as they were left. After the
  loop the two remaining bytes of the checksum block are read to \<^verbatim>\<open>ip + 1\<close>;
  \<^verbatim>\<open>CRCsaved\<close> and \<^verbatim>\<open>CRCcalculated\<close> are computed and never compared (the comparison is
  commented out), so they are not in the model.
\<close>

definition FIO_decompressFilename_run ::
  "externals \<Rightarrow> config \<Rightarrow> world \<Rightarrow> string \<Rightarrow> string \<Rightarrow> string option
     \<Rightarrow> (failure \<times> streams) + dstate" where
  "FIO_decompressFilename_run e g w output_filename input_filename password =
     (case get_fileHandle e g w input_filename output_filename of
        Inl x \<Rightarrow> Inl x
      | Inr io0 \<Rightarrow>
          let (header, io1) = fread FIO_FRAMEHEADERSIZE io0
          in if length header \<noteq> FIO_FRAMEHEADERSIZE then Inl (Exit 30, io1)
             else
               (case select_decompressor e (FIO_readLE32 header) of
                  None \<Rightarrow> Inl (Exit 31, io1)
                | Some decompressor \<Rightarrow>
                    let blockSizeId = unat (header ! 4)
                    in if blockSizeId > FIO_maxBlockSizeID then Inl (Exit 32, io1)
                       else
                         let blockSize = FIO_blockID_to_blockSize blockSizeId;
                             inputBufferSize = blockSize + FIO_maxBlockHeaderSize
                         in (case (alloc e inputBufferSize, alloc e blockSize) of
                               (Some in_buff0, Some out_buff) \<Rightarrow>
                                 (case fread_buf in_buff0 0 1 io1 of
                                    Inl x \<Rightarrow> Inl x
                                  | Inr (in_buff, n, io2) \<Rightarrow>
                                      if n \<noteq> 1 then Inl (Exit 34, io2)
                                      else
                                        (case decompress_loop e blockSize decompressor password
                                                \<lparr> d_io = io2, d_in_buff = in_buff,
                                                  d_out_buff = out_buff, d_ip = 0,
                                                  d_xxhState = XXH32_reset FSE_CHECKSUM_SEED,
                                                  d_index = 0, d_filesize = 0 \<rparr> of
                                           Inl x \<Rightarrow> Inl x
                                         | Inr st \<Rightarrow>
                                             (case fread_buf (d_in_buff st) (d_ip st + 1) 2
                                                     (d_io st) of
                                                Inl x \<Rightarrow> Inl x
                                              | Inr (b, n2, io3) \<Rightarrow>
                                                  if n2 \<noteq> 2 then Inl (Exit 43, io3)
                                                  else Inr (st\<lparr>d_io := fclose_both io3,
                                                             d_in_buff := b\<rparr>))))
                             | _ \<Rightarrow> Inl (Exit 33, io1))))"

text \<open>\<^verbatim>\<open>FIO_decompressFilename\<close> returns \<^verbatim>\<open>filesize\<close>; the streams are kept beside it.\<close>

definition FIO_decompressFilename ::
  "externals \<Rightarrow> config \<Rightarrow> world \<Rightarrow> string \<Rightarrow> string \<Rightarrow> string option
     \<Rightarrow> (failure \<times> streams) + (nat \<times> streams)" where
  "FIO_decompressFilename e g w output_filename input_filename password =
     map_sum id (\<lambda>st. (d_filesize st, d_io st))
       (FIO_decompressFilename_run e g w output_filename input_filename password)"

section \<open>The buffered format\<close>

text \<open>
  The streaming codec of \<^verbatim>\<open>zstd/zstd_buffered_static.h\<close> keeps its state in a context
  that the calls update through a pointer. The types \<open>'c\<close> and \<open>'d\<close> are the states of
  a compression and of a decompression context; each operation returns the new state.
  \<open>None\<close> (or \<open>True\<close> for the two \<^verbatim>\<open>free\<close> functions) is a result for which
  \<^verbatim>\<open>ZBUFF_isError\<close> holds.

  \<^item> \<open>ZBUFF_compressInit_advanced ctx cLevel srcSizeHint\<close> stands for
    \<^verbatim>\<open>ZBUFF_compressInit_advanced(ctx, ZSTD_getParams(cLevel, srcSizeHint))\<close>.
  \<^item> \<open>ZBUFF_compressContinue ctx dstCapacity src scrambler\<close> is the call
    \<^verbatim>\<open>ZBUFF_compressContinue(ctx, dst, &cSize, src, &usedInSize, scrambler)\<close> with
    \<^verbatim>\<open>cSize = dstCapacity\<close> and \<^verbatim>\<open>usedInSize = length src\<close> on entry; the result holds the bytes
    written to \<^verbatim>\<open>dst\<close> (their number is \<^verbatim>\<open>cSize\<close> on return) and \<^verbatim>\<open>usedInSize\<close> on return.
  \<^item> \<open>ZBUFF_compressEnd ctx dstCapacity\<close> returns the bytes written and the result code.
  \<^item> \<open>ZBUFF_decompressContinue dctx dstCapacity src scrambler\<close> is the call
    \<^verbatim>\<open>ZBUFF_decompressContinue(dctx, dst, &decodedSize, src, &inSize, scrambler)\<close>; the
    result holds the bytes written to \<^verbatim>\<open>dst\<close>, \<^verbatim>\<open>inSize\<close> on return (the bytes consumed)
    and the returned number of bytes wanted next.
\<close>

record ('c, 'd) zbuff =
  ZBUFF_createCCtx :: "'c option"
  ZBUFF_freeCCtx :: "'c \<Rightarrow> bool"
  ZBUFF_recommendedCInSize :: nat
  ZBUFF_recommendedCOutSize :: nat
  ZBUFF_compressInit_advanced :: "'c \<Rightarrow> int \<Rightarrow> nat \<Rightarrow> 'c option"
  ZBUFF_compressWithDictionary :: "'c \<Rightarrow> byte list \<Rightarrow> 'c option"
  ZBUFF_compressContinue :: "'c \<Rightarrow> nat \<Rightarrow> byte list \<Rightarrow> U32 \<Rightarrow> ('c \<times> byte list \<times> nat) option"
  ZBUFF_compressEnd :: "'c \<Rightarrow> nat \<Rightarrow> 'c \<times> byte list \<times> nat"
  ZBUFF_createDCtx :: "'d option"
  ZBUFF_freeDCtx :: "'d \<Rightarrow> bool"
  ZBUFF_recommendedDInSize :: nat
  ZBUFF_recommendedDOutSize :: nat
  ZBUFF_decompressInit :: "'d \<Rightarrow> 'd"
  ZBUFF_decompressWithDictionary :: "'d \<Rightarrow> byte list \<Rightarrow> 'd"
  ZBUFF_decompressContinue ::
    "'d \<Rightarrow> nat \<Rightarrow> byte list \<Rightarrow> U32 \<Rightarrow> ('d \<times> byte list \<times> nat \<times> nat) option"

definition MAX_DICT_SIZE :: nat where "MAX_DICT_SIZE = 512 * 2 ^ 10"
definition FNSPACE :: nat where "FNSPACE = 30"

text \<open>\<^verbatim>\<open>FIO_getFileSize2\<close> (lines 336-348): the size of a regular file, 0 for anything
  else. The files of the model are regular files.\<close>

definition FIO_getFileSize2 :: "world \<Rightarrow> string \<Rightarrow> nat" where
  "FIO_getFileSize2 w infilename = (case files w infilename of None \<Rightarrow> 0 | Some d \<Rightarrow> length d)"

text \<open>
  \<^verbatim>\<open>FIO_loadFile\<close> (lines 1251-1280): the dictionary buffer; no file name gives the
  empty buffer (\<^verbatim>\<open>NULL\<close> with size 0). A file over \<^verbatim>\<open>MAX_DICT_SIZE\<close> is read from
  \<^verbatim>\<open>fileSize - MAX_DICT_SIZE\<close> on; \<^verbatim>\<open>fseek\<close> on a regular file does not fail.
\<close>

definition FIO_loadFile :: "externals \<Rightarrow> world \<Rightarrow> string option \<Rightarrow> failure + byte list" where
  "FIO_loadFile e w fileName =
     (case fileName of
        None \<Rightarrow> Inr []
      | Some name \<Rightarrow>
          (case files w name of
             None \<Rightarrow> Inl (Exit 31)
           | Some d \<Rightarrow>
               let fileSize0 = FIO_getFileSize2 w name
               in if fileSize0 > MAX_DICT_SIZE \<and> fileSize0 > 2 ^ 30 then Inl (Exit 32)
                  else
                    let rest = (if fileSize0 > MAX_DICT_SIZE then drop (fileSize0 - MAX_DICT_SIZE) d
                                else d);
                        fileSize = (if fileSize0 > MAX_DICT_SIZE then MAX_DICT_SIZE else fileSize0)
                    in (case alloc e fileSize of
                          None \<Rightarrow> Inl (Exit 34)
                        | Some buffer \<Rightarrow>
                            if length (take fileSize rest) \<noteq> fileSize then Inl (Exit 35)
                            else Inr (store buffer 0 (take fileSize rest)))))"

text \<open>\<^verbatim>\<open>getchar()\<close> on the standard input of the world: \<open>None\<close> is \<^verbatim>\<open>EOF\<close>.\<close>

definition getchar :: "world \<Rightarrow> byte option \<times> world" where
  "getchar w =
     (case stdin_data w of
        [] \<Rightarrow> (None, w)
      | c # cs \<Rightarrow> (Some c, w\<lparr>stdin_data := cs\<rparr>))"

text \<open>
  The prompt of \<^verbatim>\<open>FIO_getFiles\<close> (lines 1223-1229):
  \<^verbatim>\<open>while ((ch = getchar()) != '\n' && ch != EOF); ch = getchar();\<close>
  \<^verbatim>\<open>if (getchar() != '\n') ch = 'N';\<close>
  The loop drops the characters up to and including the first newline.
\<close>

definition overwrite_prompt :: "world \<Rightarrow> byte option \<times> world" where
  "overwrite_prompt w =
     (let w1 = w\<lparr>stdin_data := drop 1 (dropWhile (\<lambda>c. c \<noteq> 0x0A) (stdin_data w))\<rparr>;
          (ch, w2) = getchar w1;
          (c2, w3) = getchar w2
      in (if c2 \<noteq> Some 0x0A then Some 0x4E else ch, w3))"

text \<open>
  \<^verbatim>\<open>FIO_getFiles\<close> (lines 1179-1244): the returned \<^verbatim>\<open>int\<close>, the world after the
  prompt and after \<^verbatim>\<open>fopen(dstFileName, "wb")\<close> (the destination exists and is empty),
  and the streams when both files are open. The source handle is not closed on the
  paths that return 1 after it was opened.
\<close>

definition FIO_getFiles ::
  "externals \<Rightarrow> config \<Rightarrow> world \<Rightarrow> string \<Rightarrow> string \<Rightarrow> failure + (nat \<times> world \<times> streams option)" where
  "FIO_getFiles e g w dstFileName srcFileName =
     (let from_stdin = (srcFileName = stdinmark e);
          fileIn = (if from_stdin then Some (stdin_data w) else files w srcFileName)
      in case fileIn of
           None \<Rightarrow> Inr (1, w, None)
         | Some d \<Rightarrow>
             let s0 = \<lparr> finput = d, foutput = [], space = free_space w, finput_open = True,
                        foutput_open = True \<rparr>
             in if dstFileName = stdoutmark e then Inr (0, w, Some s0)
                else
                  let found = (\<not> g_overwrite g \<and> files w dstFileName \<noteq> None)
                  in if found \<and> (g_displayLevel g \<le> 1 \<or> from_stdin) then Inr (1, w, None)
                     else
                       let (ch, w1) = (if found then overwrite_prompt w else (Some 0x59, w))
                       in if ch \<noteq> Some 0x59 \<and> ch \<noteq> Some 0x79 then Inr (1, w1, None)
                          else if \<not> can_create w dstFileName then Inl (Exit 13)
                          else Inr (0, w1\<lparr>files := (files w1)(dstFileName := Some [])\<rparr>,
                                 Some (if \<not> from_stdin \<and> srcFileName = dstFileName
                                       then s0\<lparr>finput := []\<rparr> else s0)))"

text \<open>The world after both files of an operation are closed: the destination holds
  what was written (the bytes sent to standard output are not kept), and what was
  read from standard input is gone.\<close>

definition close_files :: "externals \<Rightarrow> world \<Rightarrow> string \<Rightarrow> string \<Rightarrow> streams \<Rightarrow> world" where
  "close_files e w dstFileName srcFileName io =
     (let w1 = (if dstFileName = stdoutmark e then w
                else w\<lparr>files := (files w)(dstFileName := Some (foutput io))\<rparr>);
          w2 = (if srcFileName = stdinmark e then w1\<lparr>stdin_data := finput io\<rparr> else w1)
      in w2\<lparr>free_space := space io\<rparr>)"

subsection \<open>Compression\<close>

text \<open>\<^verbatim>\<open>cRess_t\<close> (lines 777-785); the buffers with their contents, the context with
  its state.\<close>

record 'c cRess_t =
  cr_srcBuffer :: "byte list"
  cr_srcBufferSize :: nat
  cr_dstBuffer :: "byte list"
  cr_dstBufferSize :: nat
  cr_dictBuffer :: "byte list"
  cr_dictBufferSize :: nat
  cr_ctx :: 'c

definition FIO_createCResources ::
  "externals \<Rightarrow> ('c, 'd) zbuff \<Rightarrow> world \<Rightarrow> string option \<Rightarrow> failure + 'c cRess_t" where
  "FIO_createCResources e z w dictFileName =
     (case ZBUFF_createCCtx z of
        None \<Rightarrow> Inl (Exit 30)
      | Some ctx \<Rightarrow>
          (case (alloc e (ZBUFF_recommendedCInSize z), alloc e (ZBUFF_recommendedCOutSize z)) of
             (Some srcBuffer, Some dstBuffer) \<Rightarrow>
               (case FIO_loadFile e w dictFileName of
                  Inl f \<Rightarrow> Inl f
                | Inr dictBuffer \<Rightarrow>
                    Inr \<lparr> cr_srcBuffer = srcBuffer, cr_srcBufferSize = ZBUFF_recommendedCInSize z,
                          cr_dstBuffer = dstBuffer, cr_dstBufferSize = ZBUFF_recommendedCOutSize z,
                          cr_dictBuffer = dictBuffer, cr_dictBufferSize = length dictBuffer,
                          cr_ctx = ctx \<rparr>)
           | _ \<Rightarrow> Inl (Exit 31)))"

definition FIO_freeCResources :: "('c, 'd) zbuff \<Rightarrow> 'c cRess_t \<Rightarrow> failure + unit" where
  "FIO_freeCResources z ress = (if ZBUFF_freeCCtx z (cr_ctx ress) then Inl (Exit 38) else Inr ())"

text \<open>
  The state of the main loop of \<^verbatim>\<open>FIO_compressZstdFilename_extRess\<close>: the streams,
  the resources (the content of \<^verbatim>\<open>srcBuffer\<close>, the context), \<^verbatim>\<open>index\<close> and the two
  counters.
\<close>

record 'c zcstate =
  zc_io :: streams
  zc_ress :: "'c cRess_t"
  zc_index :: nat
  zc_filesize :: nat
  zc_compressedfilesize :: nat

text \<open>
  One turn of the loop (lines 858-892), in the order of the source:
  \<^verbatim>\<open>scrambler_func(passwordValue, index++)\<close>; \<^verbatim>\<open>salsa20\<close> on the first
  \<^verbatim>\<open>sizeof(ress.srcBuffer)\<close> bytes of \<^verbatim>\<open>srcBuffer\<close> (a \<^verbatim>\<open>void*\<close>) with the global key;
  \<^verbatim>\<open>fread\<close> over the same buffer; \<^verbatim>\<open>break\<close> on an empty read;
  \<^verbatim>\<open>ZBUFF_compressContinue\<close> on the \<open>inSize\<close> bytes read; the write.
\<close>

definition zstd_compress_iteration ::
  "externals \<Rightarrow> ('c, 'd) zbuff \<Rightarrow> string option \<Rightarrow> 'c zcstate \<Rightarrow> failure + 'c zcstate loop" where
  "zstd_compress_iteration e z passwordValue st =
     (case scrambler_func e passwordValue (zc_index st) of
        Inl f \<Rightarrow> Inl f
      | Inr scrambler \<Rightarrow>
          let ress = zc_ress st;
              srcBuffer1 = salsa20_inplace e (cr_srcBuffer ress) (sizeof_ptr e) key nonce;
              (data, io1) = fread (cr_srcBufferSize ress) (zc_io st);
              inSize = length data;
              srcBuffer = store srcBuffer1 0 data;
              st1 = st\<lparr>zc_io := io1, zc_ress := ress\<lparr>cr_srcBuffer := srcBuffer\<rparr>,
                       zc_index := zc_index st + 1\<rparr>
          in if inSize = 0 then Inr (Break st1)
             else
               (case ZBUFF_compressContinue z (cr_ctx ress) (cr_dstBufferSize ress)
                       (take inSize srcBuffer) scrambler of
                  None \<Rightarrow> Inl (Exit 23)
                | Some (ctx, cdata, usedInSize) \<Rightarrow>
                    if inSize \<noteq> usedInSize then Inl (Exit 24)
                    else
                      let (n, io2) = fwrite cdata io1
                      in if n \<noteq> length cdata then Inl (Exit 25)
                         else Inr (Continue
                                (st1\<lparr>zc_io := io2,
                                     zc_ress := ress\<lparr>cr_srcBuffer := srcBuffer, cr_ctx := ctx\<rparr>,
                                     zc_filesize := zc_filesize st + inSize,
                                     zc_compressedfilesize :=
                                       zc_compressedfilesize st + length cdata\<rparr>))))"

lemma zstd_compress_iteration_less:
  assumes "zstd_compress_iteration e z passwordValue st = Inr (Continue st')"
  shows "length (finput (zc_io st')) < length (finput (zc_io st))"
  using assms
  by (auto simp: zstd_compress_iteration_def fread_def fwrite_def Let_def
      split: sum.splits option.splits if_splits)

function zstd_compress_loop ::
  "externals \<Rightarrow> ('c, 'd) zbuff \<Rightarrow> string option \<Rightarrow> 'c zcstate \<Rightarrow> failure + 'c zcstate" where
  "zstd_compress_loop e z passwordValue st =
     (case zstd_compress_iteration e z passwordValue st of
        Inl f \<Rightarrow> Inl f
      | Inr (Break st') \<Rightarrow> Inr st'
      | Inr (Continue st') \<Rightarrow> zstd_compress_loop e z passwordValue st')"
  by pat_completeness auto
termination
  by (relation "measure (\<lambda>(e, z, passwordValue, st). length (finput (zc_io st)))")
     (auto dest: zstd_compress_iteration_less)

text \<open>
  \<^verbatim>\<open>FIO_compressZstdFilename_extRess\<close> (lines 823-915): the returned \<^verbatim>\<open>int\<close>, the world
  with the destination file closed, and the resources. \<^verbatim>\<open>fclose\<close> does not fail in the
  model, so \<^verbatim>\<open>EXM_THROW(28, ...)\<close> has no branch.
\<close>

definition FIO_compressZstdFilename_extRess ::
  "externals \<Rightarrow> ('c, 'd) zbuff \<Rightarrow> config \<Rightarrow> world \<Rightarrow> 'c cRess_t \<Rightarrow> string \<Rightarrow> string \<Rightarrow> int
     \<Rightarrow> string option \<Rightarrow> failure + (nat \<times> world \<times> 'c cRess_t)" where
  "FIO_compressZstdFilename_extRess e z g w ress dstFileName srcFileName cLevel passwordValue =
     (case FIO_getFiles e g w dstFileName srcFileName of
        Inl f \<Rightarrow> Inl f
      | Inr (r, w1, None) \<Rightarrow> Inr (1, w1, ress)
      | Inr (r, w1, Some io0) \<Rightarrow>
          let filesize = FIO_getFileSize2 w1 srcFileName + cr_dictBufferSize ress
          in (case ZBUFF_compressInit_advanced z (cr_ctx ress) cLevel filesize of
                None \<Rightarrow> Inl (Exit 21)
              | Some ctx1 \<Rightarrow>
                  (case ZBUFF_compressWithDictionary z ctx1 (cr_dictBuffer ress) of
                     None \<Rightarrow> Inl (Exit 22)
                   | Some ctx2 \<Rightarrow>
                       (case zstd_compress_loop e z passwordValue
                               \<lparr> zc_io = io0, zc_ress = ress\<lparr>cr_ctx := ctx2\<rparr>, zc_index = 0,
                                 zc_filesize = 0, zc_compressedfilesize = 0 \<rparr> of
                          Inl f \<Rightarrow> Inl f
                        | Inr st \<Rightarrow>
                            let (ctx3, cdata, result) =
                                  ZBUFF_compressEnd z (cr_ctx (zc_ress st)) (cr_dstBufferSize ress)
                            in if result \<noteq> 0 then Inl (Exit 26)
                               else
                                 let (n, io) = fwrite cdata (zc_io st)
                                 in if n \<noteq> length cdata then Inl (Exit 27)
                                    else Inr (0,
                                           close_files e w1 dstFileName srcFileName
                                             (fclose_both io),
                                           (zc_ress st)\<lparr>cr_ctx := ctx3\<rparr>)))))"

text \<open>\<^verbatim>\<open>strcpy\<close> and \<^verbatim>\<open>strcat\<close> copy up to the first NUL.\<close>

definition c_str :: "string \<Rightarrow> string" where
  "c_str s = takeWhile (\<lambda>c. c \<noteq> CHR 0x00) s"

text \<open>
  The \<^verbatim>\<open>for\<close> loop of \<^verbatim>\<open>FIO_compressMultipleFilenames\<close> (lines 962-970) over the table
  of names. The state (\<open>batch\<close>) is \<^verbatim>\<open>missed_files\<close>, \<^verbatim>\<open>dfnSize\<close> (the capacity of
  \<^verbatim>\<open>dstFileName\<close>), the world and the resources.
  The name buffer is grown to \<^verbatim>\<open>ifnSize + 20\<close> when it is too small; a suffix that
  still does not fit overruns it. The two allocations of the name buffer are not
  checked by the source and succeed in the model.
\<close>

record 'c batch =
  b_missed_files :: nat
  b_dfnSize :: nat
  b_world :: world
  b_ress :: "'c cRess_t"

fun compress_files ::
  "externals \<Rightarrow> ('c, 'd) zbuff \<Rightarrow> config \<Rightarrow> string \<Rightarrow> int \<Rightarrow> string list \<Rightarrow> 'c batch
     \<Rightarrow> failure + 'c batch" where
  "compress_files e z g suffix compressionLevel [] b = Inr b"
| "compress_files e z g suffix compressionLevel (name # names) b =
     (let ifnSize = strlen name;
          suffixSize = strlen suffix;
          dfnSize = (if b_dfnSize b \<le> ifnSize + suffixSize + 1 then ifnSize + 20
                     else b_dfnSize b)
      in if dfnSize < ifnSize + suffixSize + 1 then Inl BufferOverrun
         else
           (case FIO_compressZstdFilename_extRess e z g (b_world b) (b_ress b)
                   (c_str name @ c_str suffix) name compressionLevel
                   (Some ''TODO passwordValue'') of
              Inl f \<Rightarrow> Inl f
            | Inr (r, w, ress) \<Rightarrow>
                compress_files e z g suffix compressionLevel names
                  \<lparr> b_missed_files = b_missed_files b + r, b_dfnSize = dfnSize, b_world = w,
                    b_ress = ress \<rparr>))"

text \<open>The body of \<^verbatim>\<open>FIO_compressMultipleFilenames\<close> (lines 947-977): the local variables
  as they are at the \<^verbatim>\<open>return\<close>, after \<^verbatim>\<open>FIO_freeCResources\<close>.\<close>

definition FIO_compressMultipleFilenames_run ::
  "externals \<Rightarrow> ('c, 'd) zbuff \<Rightarrow> config \<Rightarrow> world \<Rightarrow> string list \<Rightarrow> string \<Rightarrow> string option \<Rightarrow> int
     \<Rightarrow> failure + 'c batch" where
  "FIO_compressMultipleFilenames_run e z g w inFileNamesTable suffix dictFileName
       compressionLevel =
     (case FIO_createCResources e z w dictFileName of
        Inl f \<Rightarrow> Inl f
      | Inr ress \<Rightarrow>
          (case compress_files e z g suffix compressionLevel inFileNamesTable
                  \<lparr> b_missed_files = 0, b_dfnSize = FNSPACE, b_world = w, b_ress = ress \<rparr> of
             Inl f \<Rightarrow> Inl f
           | Inr b \<Rightarrow>
               (case FIO_freeCResources z (b_ress b) of
                  Inl f \<Rightarrow> Inl f
                | Inr u \<Rightarrow> Inr b)))"

text \<open>\<^verbatim>\<open>FIO_compressMultipleFilenames\<close> returns \<^verbatim>\<open>missed_files\<close>; the world is kept beside
  it.\<close>

definition FIO_compressMultipleFilenames ::
  "externals \<Rightarrow> ('c, 'd) zbuff \<Rightarrow> config \<Rightarrow> world \<Rightarrow> string list \<Rightarrow> string \<Rightarrow> string option \<Rightarrow> int
     \<Rightarrow> failure + (nat \<times> world)" where
  "FIO_compressMultipleFilenames e z g w inFileNamesTable suffix dictFileName compressionLevel =
     map_sum id (\<lambda>b. (b_missed_files b, b_world b))
       (FIO_compressMultipleFilenames_run e z g w inFileNamesTable suffix dictFileName
          compressionLevel)"

subsection \<open>Decompression\<close>

text \<open>\<^verbatim>\<open>dRess_t\<close> (lines 983-991).\<close>

record 'd dRess_t =
  dr_srcBuffer :: "byte list"
  dr_srcBufferSize :: nat
  dr_dstBuffer :: "byte list"
  dr_dstBufferSize :: nat
  dr_dictBuffer :: "byte list"
  dr_dictBufferSize :: nat
  dr_dctx :: 'd

text \<open>Subtraction of \<^verbatim>\<open>size_t\<close> values (64 bits) wraps around.\<close>

definition size_t_sub :: "nat \<Rightarrow> nat \<Rightarrow> nat" where
  "size_t_sub a b = (if b \<le> a then a - b else (a + 2 ^ 64 - b) mod 2 ^ 64)"

text \<open>The state of the loop of \<^verbatim>\<open>FIO_decompressFrame\<close>: the streams, the resources
  (the content of \<^verbatim>\<open>srcBuffer\<close>, the context), \<^verbatim>\<open>readSize\<close>, \<^verbatim>\<open>frameSize\<close>, \<^verbatim>\<open>index\<close>.\<close>

record 'd zdstate =
  zd_io :: streams
  zd_ress :: "'d dRess_t"
  zd_readSize :: nat
  zd_frameSize :: nat
  zd_index :: nat

text \<open>
  One turn of the loop (lines 1050-1075): \<^verbatim>\<open>scrambler_func(passwordValue, index++)\<close>;
  \<^verbatim>\<open>ZBUFF_decompressContinue\<close> on the \<^verbatim>\<open>readSize\<close> bytes staged in \<^verbatim>\<open>srcBuffer\<close>;
  \<^verbatim>\<open>readSize -= inSize\<close>; the write; \<^verbatim>\<open>break\<close> when nothing more is wanted; the two
  checks; the refill \<^verbatim>\<open>fread(ress.srcBuffer, 1, toRead, finput)\<close>.
\<close>

definition FIO_decompressFrame_iteration ::
  "externals \<Rightarrow> ('c, 'd) zbuff \<Rightarrow> string option \<Rightarrow> 'd zdstate \<Rightarrow> failure + 'd zdstate loop" where
  "FIO_decompressFrame_iteration e z passwordValue st =
     (case scrambler_func e passwordValue (zd_index st) of
        Inl f \<Rightarrow> Inl f
      | Inr scrambler \<Rightarrow>
          let ress = zd_ress st
          in (case ZBUFF_decompressContinue z (dr_dctx ress) (dr_dstBufferSize ress)
                     (take (zd_readSize st) (dr_srcBuffer ress)) scrambler of
                None \<Rightarrow> Inl (Exit 36)
              | Some (dctx, decoded, inSize, toRead) \<Rightarrow>
                  let readSize = size_t_sub (zd_readSize st) inSize;
                      decodedSize = length decoded;
                      (sizeCheck, io1) = fwrite decoded (zd_io st)
                  in if sizeCheck \<noteq> decodedSize then Inl (Exit 37)
                     else
                       let st1 = \<lparr> zd_io = io1, zd_ress = ress\<lparr>dr_dctx := dctx\<rparr>,
                                   zd_readSize = readSize,
                                   zd_frameSize = zd_frameSize st + decodedSize,
                                   zd_index = zd_index st + 1 \<rparr>
                       in if toRead = 0 then Inr (Break st1)
                          else if readSize \<noteq> 0 then Inl (Exit 38)
                          else if toRead > dr_srcBufferSize ress then Inl (Exit 34)
                          else
                            let (data, io2) = fread toRead io1
                            in if length data \<noteq> toRead then Inl (Exit 35)
                               else Inr (Continue
                                      (st1\<lparr>zd_io := io2,
                                           zd_ress := ress\<lparr>dr_dctx := dctx,
                                             dr_srcBuffer := store (dr_srcBuffer ress) 0 data\<rparr>,
                                           zd_readSize := length data\<rparr>))))"

lemma FIO_decompressFrame_iteration_less:
  assumes "FIO_decompressFrame_iteration e z passwordValue st = Inr (Continue st')"
  shows "length (finput (zd_io st')) < length (finput (zd_io st))"
  using assms
  by (auto simp: FIO_decompressFrame_iteration_def fread_def fwrite_def Let_def
      split: sum.splits option.splits if_splits)

function FIO_decompressFrame_loop ::
  "externals \<Rightarrow> ('c, 'd) zbuff \<Rightarrow> string option \<Rightarrow> 'd zdstate \<Rightarrow> failure + 'd zdstate" where
  "FIO_decompressFrame_loop e z passwordValue st =
     (case FIO_decompressFrame_iteration e z passwordValue st of
        Inl f \<Rightarrow> Inl f
      | Inr (Break st') \<Rightarrow> Inr st'
      | Inr (Continue st') \<Rightarrow> FIO_decompressFrame_loop e z passwordValue st')"
  by pat_completeness auto
termination
  by (relation "measure (\<lambda>(e, z, passwordValue, st). length (finput (zd_io st)))")
     (auto dest: FIO_decompressFrame_iteration_less)

text \<open>
  \<^verbatim>\<open>FIO_decompressFrame\<close> (lines 1026-1078): \<^verbatim>\<open>frameSize\<close> and the final state. The
  call \<^verbatim>\<open>salsa20(ress.dstBuffer, sizeof(ress.dstBuffer), key, nonce)\<close> before the loop
  changes bytes of \<^verbatim>\<open>dstBuffer\<close> that the codec overwrites before they are written.
\<close>

definition FIO_decompressFrame ::
  "externals \<Rightarrow> ('c, 'd) zbuff \<Rightarrow> 'd dRess_t \<Rightarrow> streams \<Rightarrow> nat \<Rightarrow> string option
     \<Rightarrow> failure + (nat \<times> 'd zdstate)" where
  "FIO_decompressFrame e z ress io alreadyLoaded passwordValue =
     (let dctx = ZBUFF_decompressWithDictionary z (ZBUFF_decompressInit z (dr_dctx ress))
                   (dr_dictBuffer ress);
          dstBuffer = salsa20_inplace e (dr_dstBuffer ress) (sizeof_ptr e) key nonce
      in case FIO_decompressFrame_loop e z passwordValue
                \<lparr> zd_io = io, zd_ress = ress\<lparr>dr_dctx := dctx, dr_dstBuffer := dstBuffer\<rparr>,
                  zd_readSize = alreadyLoaded, zd_frameSize = 0, zd_index = 0 \<rparr> of
           Inl f \<Rightarrow> Inl f
         | Inr st \<Rightarrow> Inr (zd_frameSize st, st))"

section \<open>Collaborators for concrete runs\<close>

text \<open>
  To run the model on concrete files the external functions need values. These
  stand-ins keep to the call contracts: a compressor that never compresses (it
  answers 1 for a block of one repeated byte and 0, incompressible, for any other), a
  multiplicative hash in place of xxHash, and the identity in place of the cipher.
  \<open>xor_externals\<close> differs in the cipher only, which xors a fixed byte onto the
  message.
\<close>

definition rle_or_raw :: "nat \<Rightarrow> byte list \<Rightarrow> U32 \<Rightarrow> byte list option" where
  "rle_or_raw dstSize src scrambler =
     Some (if src \<noteq> [] \<and> src = replicate (length src) (hd src) then [hd src] else [])"

definition toy_hash :: "byte list \<Rightarrow> U32 \<Rightarrow> U32" where
  "toy_hash bs seed = foldl (\<lambda>h b. h * 0x9E3779B1 + ucast b + 1) seed bs"

definition demo_externals :: externals where
  "demo_externals =
     \<lparr> FSE_compress = rle_or_raw, HUF_compress = rle_or_raw,
       ZLIBH_compress = (\<lambda>src. rle_or_raw 0 src 0),
       FSE_decompress = (\<lambda>dstSize src scrambler. None),
       HUF_decompress = (\<lambda>dstSize src scrambler. None),
       ZLIBH_decompress = (\<lambda>src. None),
       FSE_compressBound = (\<lambda>n. 512 + n + n div 128),
       XXH32 = toy_hash,
       salsa20 = (\<lambda>m k nc. m),
       getNumber64ForPassword = (\<lambda>p i. 0x1234 + of_nat i),
       sizeof_ptr = 8, char_is_signed = True,
       malloc = (\<lambda>n. Some (replicate n 0)),
       stdinmark = ''stdin'', stdoutmark = ''stdout'', nulmark = ''nul'' \<rparr>"

definition xor_externals :: externals where
  "xor_externals = demo_externals\<lparr>salsa20 := (\<lambda>m k nc. map (\<lambda>b. b XOR 0x5A) m)\<rparr>"

text \<open>A world with one file, an empty standard input and room for a million bytes.\<close>

definition one_file :: "string \<Rightarrow> byte list \<Rightarrow> world" where
  "one_file name bytes =
     \<lparr> files = (\<lambda>n. if n = name then Some bytes else None), stdin_data = [],
       can_create = (\<lambda>n. True), free_space = 1000000 \<rparr>"

text \<open>Compress the bytes \<open>S\<close> of a file, then decompress the file that was written.\<close>

definition compress_then_decompress ::
  "externals \<Rightarrow> config \<Rightarrow> byte list \<Rightarrow> string option \<Rightarrow> (failure \<times> streams) + (nat \<times> streams)" where
  "compress_then_decompress e g S password =
     (case FIO_compressFilename e g (one_file ''in'' S) ''packed'' ''in'' password of
        Inl x \<Rightarrow> Inl x
      | Inr (n, io) \<Rightarrow>
          FIO_decompressFilename e g (one_file ''packed'' (foutput io)) ''out'' ''packed''
            password)"

text \<open>
  The decoder's reading of the header bytes \<open>hdr\<close> of one block: the first byte is
  where \<^verbatim>\<open>ip\<close> points (the previous \<^verbatim>\<open>fread\<close> left it in \<^verbatim>\<open>in_buff\<close>), the others are
  next in the source.
\<close>

definition parse_block_header :: "nat \<Rightarrow> byte list \<Rightarrow> failure + block_desc" where
  "parse_block_header blockSize hdr =
     (case decode_header blockSize
             (store (replicate (blockSize + FIO_maxBlockHeaderSize) 0) 0 (take 1 hdr)) 0
             \<lparr> finput = drop 1 hdr, foutput = [], space = 0, finput_open = True,
               foutput_open = True \<rparr> of
        Inl (f, io) \<Rightarrow> Inl f
      | Inr (bd, b, io) \<Rightarrow> Inr bd)"

text \<open>
  A codec that keeps a record of what it is given. Its compression context is a
  context of \<open>z\<close> together with the calls of \<^verbatim>\<open>ZBUFF_compressContinue\<close> received so far,
  frame by frame: \<^verbatim>\<open>ZBUFF_compressInit_advanced\<close> opens a frame, and every call of
  \<^verbatim>\<open>ZBUFF_compressContinue\<close> adds the source bytes and the scrambler it was called
  with to the open frame. In everything else it is \<open>z\<close>.
\<close>

definition log_call :: "'a \<Rightarrow> 'a list list \<Rightarrow> 'a list list" where
  "log_call x frames = (if frames = [] then [[x]] else butlast frames @ [last frames @ [x]])"

definition logging_zbuff ::
  "('c, 'd) zbuff \<Rightarrow> ('c \<times> (byte list \<times> U32) list list, 'd) zbuff" where
  "logging_zbuff z =
     \<lparr> ZBUFF_createCCtx = map_option (\<lambda>c. (c, [])) (ZBUFF_createCCtx z),
       ZBUFF_freeCCtx = (\<lambda>(c, frames). ZBUFF_freeCCtx z c),
       ZBUFF_recommendedCInSize = ZBUFF_recommendedCInSize z,
       ZBUFF_recommendedCOutSize = ZBUFF_recommendedCOutSize z,
       ZBUFF_compressInit_advanced =
         (\<lambda>(c, frames) cLevel hint.
            map_option (\<lambda>c'. (c', frames @ [[]])) (ZBUFF_compressInit_advanced z c cLevel hint)),
       ZBUFF_compressWithDictionary =
         (\<lambda>(c, frames) dict.
            map_option (\<lambda>c'. (c', frames)) (ZBUFF_compressWithDictionary z c dict)),
       ZBUFF_compressContinue =
         (\<lambda>(c, frames) cap src scrambler.
            map_option (\<lambda>(c', out, used). ((c', log_call (src, scrambler) frames), out, used))
              (ZBUFF_compressContinue z c cap src scrambler)),
       ZBUFF_compressEnd =
         (\<lambda>(c, frames) cap.
            (case ZBUFF_compressEnd z c cap of (c', out, r) \<Rightarrow> ((c', frames), out, r))),
       ZBUFF_createDCtx = ZBUFF_createDCtx z, ZBUFF_freeDCtx = ZBUFF_freeDCtx z,
       ZBUFF_recommendedDInSize = ZBUFF_recommendedDInSize z,
       ZBUFF_recommendedDOutSize = ZBUFF_recommendedDOutSize z,
       ZBUFF_decompressInit = ZBUFF_decompressInit z,
       ZBUFF_decompressWithDictionary = ZBUFF_decompressWithDictionary z,
       ZBUFF_decompressContinue = ZBUFF_decompressContinue z \<rparr>"

text \<open>The frames a context of the recording codec holds.\<close>

definition frames_received :: "'c \<times> (byte list \<times> U32) list list \<Rightarrow> (byte list \<times> U32) list list" where
  "frames_received ctx = snd ctx"

text \<open>The bytes \<open>xs\<close> cut into blocks of \<open>n\<close> bytes, the last one shorter when \<open>n\<close> does
  not divide the length: what successive calls \<^verbatim>\<open>fread(buf, 1, n, f)\<close> return.\<close>

function blocks :: "nat \<Rightarrow> 'a list \<Rightarrow> 'a list list" where
  "blocks n xs = (if n = 0 \<or> xs = [] then [] else take n xs # blocks n (drop n xs))"
  by pat_completeness auto
termination
  by (relation "measure (\<lambda>(n, xs). length xs)") auto

declare blocks.simps [simp del]

text \<open>The resources, the loop state and the batch of a run with the recording codec,
  with the context of \<open>z\<close> alone: the kept calls are left out.\<close>

definition without_frames :: "('c \<times> 'l) cRess_t \<Rightarrow> 'c cRess_t" where
  "without_frames ress =
     \<lparr> cr_srcBuffer = cr_srcBuffer ress, cr_srcBufferSize = cr_srcBufferSize ress,
       cr_dstBuffer = cr_dstBuffer ress, cr_dstBufferSize = cr_dstBufferSize ress,
       cr_dictBuffer = cr_dictBuffer ress, cr_dictBufferSize = cr_dictBufferSize ress,
       cr_ctx = fst (cr_ctx ress) \<rparr>"

definition state_without_frames :: "('c \<times> 'l) zcstate \<Rightarrow> 'c zcstate" where
  "state_without_frames st =
     \<lparr> zc_io = zc_io st, zc_ress = without_frames (zc_ress st), zc_index = zc_index st,
       zc_filesize = zc_filesize st, zc_compressedfilesize = zc_compressedfilesize st \<rparr>"

definition batch_without_frames :: "('c \<times> 'l) batch \<Rightarrow> 'c batch" where
  "batch_without_frames b =
     \<lparr> b_missed_files = b_missed_files b, b_dfnSize = b_dfnSize b, b_world = b_world b,
       b_ress = without_frames (b_ress b) \<rparr>"

text \<open>
  A streaming codec that stores: compression hands each chunk on unchanged;
  decompression swallows the four bytes it is first given, asks for \<open>want\<close> more,
  returns them and asks for nothing further. The context counts the calls.
\<close>

definition store_zbuff :: "nat \<Rightarrow> (nat, nat) zbuff" where
  "store_zbuff want =
     \<lparr> ZBUFF_createCCtx = Some 0, ZBUFF_freeCCtx = (\<lambda>c. False),
       ZBUFF_recommendedCInSize = 16, ZBUFF_recommendedCOutSize = 32,
       ZBUFF_compressInit_advanced = (\<lambda>c cLevel hint. Some 0),
       ZBUFF_compressWithDictionary = (\<lambda>c dict. Some c),
       ZBUFF_compressContinue = (\<lambda>c cap src scrambler. Some (c + 1, src, length src)),
       ZBUFF_compressEnd = (\<lambda>c cap. (c, [], 0)),
       ZBUFF_createDCtx = Some 0, ZBUFF_freeDCtx = (\<lambda>d. False),
       ZBUFF_recommendedDInSize = 16, ZBUFF_recommendedDOutSize = 32,
       ZBUFF_decompressInit = (\<lambda>d. 0),
       ZBUFF_decompressWithDictionary = (\<lambda>d dict. d),
       ZBUFF_decompressContinue =
         (\<lambda>d cap src scrambler.
            if d = 0 then Some (1, [], length src, want) else Some (d + 1, src, length src, 0)) \<rparr>"

section \<open>Properties\<close>

subsection \<open>Evaluation\<close>

lemmas model_defs =
  FIO_compressFilename_def FIO_decompressFilename_def FIO_compressFilename_run_def
  FIO_decompressFilename_run_def get_fileHandle_def
  FIO_blockID_to_blockSize_def FIO_BLOCKSIZEID_DEFAULT_def alloc_def fwrite_def fread_def
  select_compressor_def select_decompressor_def FIO_writeLE32_def FIO_readLE32_def
  FIO_magicNumber_fse_def FIO_magicNumber_huff0_def FIO_magicNumber_zlibh_def
  FIO_FRAMEHEADERSIZE_def FIO_maxBlockSizeID_def FIO_maxBlockHeaderSize_def
  XXH32_reset_def XXH32_update_def XXH32_digest_def FSE_CHECKSUM_SEED_def
  compress_iteration_def decompress_iteration_def decode_header_def decode_block_def
  fread_buf_def store_def salsa20_inplace_def key_local_def key_def nonce_def
  scrambler_func_def empty_scrambler_def write_cBlock_def block_header_def
  BIT5_def BIT6_def BIT7_def bType_of_code_def checksum_block_def fclose_both_def Let_def

lemmas demo_defs =
  demo_externals_def xor_externals_def default_config_def one_file_def rle_or_raw_def
  toy_hash_def compress_then_decompress_def

subsection \<open>The keystream selector\<close>

lemma word_of_nat_byte_eq_0: "n < 256 \<Longrightarrow> (of_nat n :: byte) = 0 \<longleftrightarrow> n = 0"
  by (auto simp: word_of_nat_eq_0_iff elim: dvdE)

lemma of_char_byte_eq_0: "(of_char c :: byte) = 0 \<longleftrightarrow> c = CHR 0x00"
proof -
  have "(of_char c :: byte) = of_nat (of_char c)" by (simp only: of_nat_of_char)
  moreover have "(of_char c :: nat) = 0 \<longleftrightarrow> c = CHR 0x00"
    using of_char_eq_iff [of c "CHR 0x00", where ?'a = nat] by simp
  ultimately show ?thesis
    using word_of_nat_byte_eq_0 [OF nat_of_char_less_256 [of c]] by simp
qed

lemma ucast_byte_eq_0: "(ucast (b :: byte) :: U32) = 0 \<longleftrightarrow> b = 0"
proof
  assume "(ucast b :: U32) = 0"
  then have "unat (ucast b :: U32) = 0" by simp
  moreover have "unat b < 2 ^ 32"
    using unsigned_less [of b, where ?'a = nat] by simp
  ultimately have "unat b = 0" by (simp add: unsigned_ucast_eq take_bit_nat_eq_self)
  then show "b = 0" by (simp add: unat_eq_0)
qed simp

lemma scast_byte_eq_0: "(scast (b :: byte) :: U32) = 0 \<longleftrightarrow> b = 0"
proof
  assume "(scast b :: U32) = 0"
  then have "sint (scast b :: U32) = 0" by simp
  moreover have "sint (scast b :: U32) = sint b"
    by (rule sint_up_scast) (simp add: is_up)
  ultimately have "sint b = 0" by simp
  then show "b = 0" by (simp add: signed_eq_0_iff)
qed simp

lemma char_to_unsigned_eq_0: "char_to_unsigned e c = 0 \<longleftrightarrow> c = CHR 0x00"
  by (simp add: char_to_unsigned_def scast_byte_eq_0 ucast_byte_eq_0 of_char_byte_eq_0)

lemma char_at_strlen:
  assumes "i < strlen p"
  shows "char_at p i \<noteq> CHR 0x00"
proof -
  let ?t = "takeWhile (\<lambda>c. c \<noteq> CHR 0x00) p"
  from assms have "?t ! i \<in> set ?t" by (simp add: strlen_def)
  then have "?t ! i \<noteq> CHR 0x00" by (auto dest: set_takeWhileD)
  moreover from assms have "?t ! i = p ! i" by (simp add: strlen_def takeWhile_nth)
  moreover from assms have "i < length p"
    using length_takeWhile_le [of "\<lambda>c. c \<noteq> CHR 0x00" p] by (simp add: strlen_def)
  ultimately show ?thesis by (simp add: char_at_def)
qed

lemma scrambler_func_Some:
  "scrambler_func e (Some p) i =
     (if strlen p = 0 then Inl DivisionByZero
      else Inr (c_abs (getNumber64ForPassword e p i)
                  mod char_to_unsigned e (char_at p (i mod strlen p))))"
  by (simp add: scrambler_func_def simlple_scrambler_def Let_def char_to_unsigned_eq_0
      char_at_strlen)

text \<open>
  Claim C10. With a secret that is not \<^verbatim>\<open>NULL\<close>, \<^verbatim>\<open>simlple_scrambler\<close> takes the index
  modulo the length of the secret and the random number modulo the byte found at
  that position. For a secret of length 0 the first of the two divides by zero, at
  every index; in the compression loop this happens on the first block that is read.
  So the derivation has a value only if the secret is not empty (and then it has one,
  because the byte read is never the terminator).
\<close>

theorem C10_scrambler_divides_by_secret_length:
  "scrambler_func e (Some p) i =
     (if strlen p = 0 then Inl DivisionByZero
      else Inr (c_abs (getNumber64ForPassword e p i)
                  mod char_to_unsigned e (char_at p (i mod strlen p))))
   \<and> (strlen p = 0 \<and> finput (c_io st) \<noteq> []
        \<longrightarrow> (\<exists>io. compress_iteration e g (Some p) st = Inl (DivisionByZero, io)))
   \<and> ((\<exists>v. scrambler_func e (Some p) i = Inr v) \<longrightarrow> strlen p \<noteq> 0)"
proof (intro conjI impI)
  show "scrambler_func e (Some p) i =
     (if strlen p = 0 then Inl DivisionByZero
      else Inr (c_abs (getNumber64ForPassword e p i)
                  mod char_to_unsigned e (char_at p (i mod strlen p))))"
    by (rule scrambler_func_Some)
next
  assume a: "strlen p = 0 \<and> finput (c_io st) \<noteq> []"
  then have "scrambler_func e (Some p) (c_index st) = Inl DivisionByZero"
    by (simp add: scrambler_func_Some)
  moreover from a have "take (FIO_blockID_to_blockSize (g_blockSizeId g)) (finput (c_io st)) \<noteq> []"
    by (simp add: FIO_blockID_to_blockSize_def)
  ultimately show "\<exists>io. compress_iteration e g (Some p) st = Inl (DivisionByZero, io)"
    by (simp add: compress_iteration_def fread_def Let_def)
next
  assume "\<exists>v. scrambler_func e (Some p) i = Inr v"
  then show "strlen p \<noteq> 0"
    by (auto simp: scrambler_func_Some split: if_splits)
qed

theorem C10_witness:
  "scrambler_func demo_externals (Some '''') 0 = Inl DivisionByZero
   \<and> scrambler_func demo_externals (Some ''ab'') 3 = Inr 57
   \<and> (\<exists>io. compress_iteration demo_externals default_config (Some '''')
              \<lparr> c_io = \<lparr> finput = [0x41], foutput = [], space = 10, finput_open = True,
                         foutput_open = True \<rparr>,
                c_in_buff = replicate 32768 0, c_xxhState = XXH32_reset 0, c_index = 0,
                c_filesize = 0, c_compressedfilesize = 5 \<rparr> = Inl (DivisionByZero, io))
   \<and> strlen ''ab'' \<noteq> 0"
proof -
  let ?st = "\<lparr> c_io = \<lparr> finput = [0x41], foutput = [], space = 10, finput_open = True,
                         foutput_open = True \<rparr>,
                c_in_buff = replicate 32768 0, c_xxhState = XXH32_reset 0, c_index = 0,
                c_filesize = 0, c_compressedfilesize = 5 \<rparr>"
  have a: "strlen '''' = 0 \<and> finput (c_io ?st) \<noteq> []" by (simp add: strlen_def)
  have b: "scrambler_func demo_externals (Some ''ab'') 3 = Inr 57"
    by code_simp
  from C10_scrambler_divides_by_secret_length
         [of demo_externals "''''" 0 ?st default_config]
       C10_scrambler_divides_by_secret_length
         [of demo_externals "''ab''" 3 ?st default_config] a b
  show ?thesis by (simp add: strlen_def)
qed

subsection \<open>Block headers\<close>

lemma block_header_rle:
  "block_header inputBlockSize 1 inSize =
     (if inSize = inputBlockSize then [0xA0] else [0x40, of_nat (inSize div 256), of_nat inSize])"
  by (simp add: block_header_def BIT5_def)

lemma block_header_length: "length (block_header inputBlockSize cSize inSize) \<in> {1, 3, 5}"
  by (simp add: block_header_def)

text \<open>What is written for a block shorter than the block size for which the
  compressor returned 1: the type bits of a Raw block, the size, the repeated byte.\<close>

lemma write_cBlock_short_rle:
  assumes "length cdata = 1" "inSize \<noteq> inputBlockSize" "4 \<le> space io"
  shows "write_cBlock inputBlockSize cdata in_buff inSize io
           = Inr (4, io\<lparr>foutput := foutput io
                               @ [0x40, of_nat (inSize div 256), of_nat inSize, in_buff ! 0],
                         space := space io - 4\<rparr>)"
  using assms by (simp add: write_cBlock_def block_header_def fwrite_def Let_def)

lemma be16: "n < 65536 \<Longrightarrow> unat (of_nat (n div 256) :: byte) * 256 + unat (of_nat n :: byte) = n"
  by (simp add: unat_of_nat)

lemma header_round_trip_except_short_rle:
  assumes "inSize \<le> blockSize" "blockSize \<le> 65536" "cSize < 65536"
      and "\<not> (cSize = 1 \<and> inSize \<noteq> blockSize)"
  shows "parse_block_header blockSize (block_header blockSize cSize inSize)
           = Inr \<lparr> bd_bType = (if cSize = 0 then bt_raw else if cSize = 1 then bt_rle
                               else bt_compressed),
                   bd_full = (inSize = blockSize), bd_rSize = inSize,
                   bd_cSize = (if cSize = 0 then inSize else cSize) \<rparr>"
proof -
  have i: "inSize \<noteq> blockSize \<Longrightarrow> inSize < 65536" using assms by simp
  show ?thesis
    using assms(3,4) i
    by (simp add: parse_block_header_def block_header_def decode_header_def fread_buf_def
        fread_def store_def bType_of_code_def BIT5_def BIT6_def BIT7_def
        FIO_maxBlockHeaderSize_def be16 Let_def)
qed

text \<open>
  Claim C2. When the compressor returns 1 for a block, the block written is an RLE
  block: a header whose type bits are 10, then the repeated byte. The code does this
  for a block of full size only. For a shorter block the branch at lines 491-497
  stores \<^verbatim>\<open>bt_raw << 6\<close> where \<^verbatim>\<open>bt_rle << 6\<close> is meant (\<open>block_header_rle\<close>): the
  type bits written are 01. Here the file holds the two bytes 0x41 0x41, for which
  the compressor returns 1; the block written is 0x40 0x00 0x02 0x41, and the decoder
  reads the type of 0x40 as \<^verbatim>\<open>bt_raw\<close>.
\<close>

theorem C2_short_rle_block_is_tagged_raw:
  "fst (select_compressor demo_externals (g_compressor default_config))
       (FSE_compressBound demo_externals (FIO_blockID_to_blockSize (g_blockSizeId default_config)))
       [0x41, 0x41] 0 = Some [0x41]
   \<and> FIO_compressFilename demo_externals default_config (one_file ''in'' [0x41, 0x41])
         ''packed'' ''in'' None
       = Inr (12, \<lparr> finput = [],
                     foutput = [0x09, 0x23, 0x3E, 0x18, 0x05] @ [0x40, 0x00, 0x02] @ [0x41]
                                 @ [0xD2, 0x6A, 0xFF],
                     space = 999988, finput_open = False, foutput_open = False \<rparr>)
   \<and> bType_of_code (drop_bit 6 ((0x40 :: byte) AND (BIT7 + BIT6))) = bt_raw"
  by (simp add: model_defs demo_defs)

text \<open>
  Claim C3. Decoding the header of a block gives back the description it was encoded
  from. This holds for every description but one (\<open>header_round_trip_except_short_rle\<close>):
  the header written for an RLE block shorter than the block size is the header of a
  Raw block of that size. For the block size 32768, the compressor result 1 and a block
  of 2 bytes the header is 0x40 0x00 0x02, which decodes as a Raw block with
  \<^verbatim>\<open>rSize = cSize = 2\<close>, where the claim asks for an RLE block with \<^verbatim>\<open>cSize = 1\<close>.
\<close>

theorem C3_short_rle_header_decodes_as_raw:
  "block_header 32768 1 2 = [0x40, 0x00, 0x02]
   \<and> parse_block_header 32768 (block_header 32768 1 2)
       = Inr \<lparr> bd_bType = bt_raw, bd_full = False, bd_rSize = 2, bd_cSize = 2 \<rparr>"
  by (simp add: parse_block_header_def model_defs)

subsection \<open>Round trip\<close>

text \<open>
  Claim C1. Decompressing what the compressor wrote gives back the bytes of the
  source. The code does not, for a file that ends in a short block of one repeated
  byte: the file 0x41 0x41 is written as a block tagged Raw of declared size 2 with
  one byte of payload (see C2), so the decoder takes the first byte of the checksum
  block, 0xD2, for the second byte of the payload, writes 0x41 0xD2, reads the next
  checksum byte as a block header and stops with the read error 38. The cipher is
  the identity in this run.
\<close>

theorem C1_round_trip_fails_on_short_rle_block:
  "compress_then_decompress demo_externals default_config [0x41, 0x41] None
     = Inl (Exit 38, \<lparr> finput = [], foutput = [0x41, 0xD2], space = 999998,
                        finput_open = True, foutput_open = True \<rparr>)"
  by (simp add: model_defs demo_defs)

text \<open>With a cipher that changes its message the round trip changes a Raw block too:
  the encoder writes \<^verbatim>\<open>in_buff\<close> after \<^verbatim>\<open>salsa20\<close> changed its first bytes, and the
  decoder writes a Raw block from \<^verbatim>\<open>in_buff\<close>, while it applies \<^verbatim>\<open>salsa20\<close> to
  \<^verbatim>\<open>out_buff\<close>.\<close>

lemma round_trip_cipher_changes_raw_block:
  "compress_then_decompress xor_externals default_config [0x41, 0x42, 0x43] None
     = Inr (3, \<lparr> finput = [], foutput = [0x1B, 0x18, 0x19], space = 999997,
                  finput_open = False, foutput_open = False \<rparr>)"
  by (simp add: model_defs demo_defs)

subsection \<open>The block index\<close>

lemma compress_iteration_index:
  "compress_iteration e g password st = Inr (Continue st') \<Longrightarrow> c_index st' = c_index st + 1"
  by (auto simp: compress_iteration_def Let_def
      split: if_splits sum.splits option.splits prod.splits)

lemma decode_header_bType:
  "decode_header blockSize in_buff ip io = Inr (bd, b1, io1)
     \<Longrightarrow> bd_bType bd = bType_of_code (drop_bit 6 (in_buff ! ip AND (BIT7 + BIT6)))"
  unfolding decode_header_def Let_def
  by (auto split: if_splits sum.splits prod.splits bType_t.splits)

lemma decode_block_index:
  "decode_block e decompressor password bd in_buff out_buff index = Inr (ob, r, idx)
     \<Longrightarrow> idx = (if bd_bType bd = bt_compressed then index + 1 else index)"
  unfolding decode_block_def
  by (auto split: if_splits sum.splits option.splits bType_t.splits)

lemma decompress_iteration_index:
  assumes "decompress_iteration e blockSize decompressor password st = Inr (Continue st')"
  shows "d_index st' =
          (if bType_of_code (drop_bit 6 (d_in_buff st ! d_ip st AND (BIT7 + BIT6))) = bt_compressed
           then d_index st + 1 else d_index st)"
proof -
  from assms obtain bd b1 io1 where
    h: "decode_header blockSize (d_in_buff st) (d_ip st) (d_io st) = Inr (bd, b1, io1)"
    by (auto simp: decompress_iteration_def split: if_splits sum.splits)
  from assms h obtain in_buff io2 where
    r: "fread_buf b1 0 (bd_cSize bd + 1) io1 = Inr (in_buff, bd_cSize bd + 1, io2)"
    by (auto simp: decompress_iteration_def Let_def split: if_splits sum.splits)
  from assms h r obtain ob rs idx where
    b: "decode_block e decompressor password bd in_buff (d_out_buff st) (d_index st)
          = Inr (ob, rs, idx)"
    by (auto simp: decompress_iteration_def Let_def split: if_splits sum.splits)
  from assms h r b have "d_index st' = idx"
    by (auto simp: decompress_iteration_def Let_def split: if_splits prod.splits)
  with decode_block_index [OF b] decode_header_bType [OF h] show ?thesis by simp
qed

text \<open>
  Claim C5. The block index starts at 0 and grows by one with every block, on both
  sides alike; without a secret the scrambler is 0. The encoder does call
  \<^verbatim>\<open>scrambler_func(password, index++)\<close> once for every block
  (\<open>compress_iteration_index\<close>), and \<^verbatim>\<open>empty_scrambler\<close> is constantly 0. The decoder
  makes the call inside \<^verbatim>\<open>case bt_compressed\<close> only, so a Raw or an RLE block leaves
  its index where it was (\<open>decompress_iteration_index\<close>). Here a file of three bytes is
  written as one Raw block: the encoder ends with the index 1, the decoder of that
  very frame with the index 0.
\<close>

theorem C5_decoder_skips_index_on_raw_block:
  "map_sum fst (\<lambda>st. (c_index st, foutput (c_io st)))
     (FIO_compressFilename_run demo_externals default_config (one_file ''in'' [0x41, 0x42, 0x43])
        ''packed'' ''in'' (Some ''ab''))
     = Inr (1, [0x09, 0x23, 0x3E, 0x18, 0x05, 0x40, 0x00, 0x03, 0x41, 0x42, 0x43, 0xD0, 0x2C, 0x54])
   \<and> map_sum fst (\<lambda>st. (d_index st, foutput (d_io st)))
     (FIO_decompressFilename_run demo_externals default_config
        (one_file ''packed''
           [0x09, 0x23, 0x3E, 0x18, 0x05, 0x40, 0x00, 0x03, 0x41, 0x42, 0x43, 0xD0, 0x2C, 0x54])
        ''out'' ''packed'' (Some ''ab''))
     = Inr (0, [0x41, 0x42, 0x43])"
  by (simp add: model_defs demo_defs simlple_scrambler_def strlen_def char_at_def
      char_to_unsigned_def c_abs_def)

subsection \<open>The checksum\<close>

text \<open>The checksum block has the layout the format comment gives: three bytes, the
  type bits of \<^verbatim>\<open>bt_crc\<close> on top, then the 22 bits of \<^verbatim>\<open>digest >> 5\<close>, big-endian.
  The third equation is the decoder's \<^verbatim>\<open>CRCsaved\<close>.\<close>

lemma checksum_block_layout:
  "length (checksum_block d) = 3"
  "drop_bit 6 (checksum_block d ! 0) = bType_code bt_crc"
  "(ucast (checksum_block d ! 2) + push_bit 8 (ucast (checksum_block d ! 1))
      + push_bit 16 (ucast (checksum_block d ! 0 AND SIXBITS)) :: U32)
     = drop_bit 5 d AND (push_bit 22 1 - 1)"
proof -
  define x where "x = drop_bit 5 d"
  have c: "drop_bit 5 d AND (push_bit 22 1 - 1) = take_bit 22 x"
    by (simp add: x_def take_bit_eq_mask mask_eq_exp_minus_1)
  have tag: "push_bit 6 (ucast (bType_code bt_crc)) = (push_bit 6 (mask 2) :: U32)"
    by (simp add: mask_eq_exp_minus_1)
  have six: "SIXBITS = mask 6"
    by (simp add: SIXBITS_def mask_eq_exp_minus_1)
  have top: "drop_bit 16 (take_bit 22 x) + push_bit 6 (mask 2)
               = drop_bit 16 (take_bit 22 x) OR (push_bit 6 (mask 2) :: U32)"
    by (rule disjunctive_add_eq_or) (auto simp: bit_eq_iff bit_simps)
  have cb: "checksum_block d =
              [ucast (drop_bit 16 (take_bit 22 x) OR (push_bit 6 (mask 2) :: U32)),
               ucast (drop_bit 8 (take_bit 22 x)), ucast (take_bit 22 x)]"
    unfolding checksum_block_def Let_def c tag top ..
  show "length (checksum_block d) = 3" by (simp add: cb)
  have "drop_bit 6 (checksum_block d ! 0) = (mask 2 :: byte)"
    unfolding cb by (auto simp: bit_eq_iff bit_simps)
  then show "drop_bit 6 (checksum_block d ! 0) = bType_code bt_crc"
    by (simp add: mask_eq_exp_minus_1)
  let ?b0 = "ucast (drop_bit 16 (take_bit 22 x) OR (push_bit 6 (mask 2) :: U32)) :: byte"
  let ?b1 = "ucast (drop_bit 8 (take_bit 22 x)) :: byte"
  let ?b2 = "ucast (take_bit 22 x) :: byte"
  have p1: "(ucast ?b2 :: U32) + push_bit 8 (ucast ?b1) = ucast ?b2 OR push_bit 8 (ucast ?b1)"
    by (rule disjunctive_add_eq_or) (auto simp: bit_eq_iff bit_simps)
  have p2: "(ucast ?b2 OR push_bit 8 (ucast ?b1) :: U32) + push_bit 16 (ucast (?b0 AND mask 6))
              = (ucast ?b2 OR push_bit 8 (ucast ?b1)) OR push_bit 16 (ucast (?b0 AND mask 6))"
    by (rule disjunctive_add_eq_or) (auto simp: bit_eq_iff bit_simps)
  have "(ucast ?b2 OR push_bit 8 (ucast ?b1)) OR push_bit 16 (ucast (?b0 AND mask 6))
          = (take_bit 22 x :: U32)"
    by (auto simp: bit_eq_iff bit_simps)
  with p1 p2 have "(ucast ?b2 :: U32) + push_bit 8 (ucast ?b1) + push_bit 16 (ucast (?b0 AND mask 6))
          = take_bit 22 x"
    by simp
  then show "(ucast (checksum_block d ! 2) + push_bit 8 (ucast (checksum_block d ! 1))
      + push_bit 16 (ucast (checksum_block d ! 0 AND SIXBITS)) :: U32)
     = drop_bit 5 d AND (push_bit 22 1 - 1)"
    unfolding cb six c by simp
qed

lemma compress_iteration_hash:
  "compress_iteration e g password st = Inr (Continue st')
     \<Longrightarrow> xxh_fed (c_xxhState st') =
          xxh_fed (c_xxhState st)
            @ take (length (take (FIO_blockID_to_blockSize (g_blockSizeId g)) (finput (c_io st))))
                (salsa20_inplace e
                   (store (c_in_buff st) 0
                      (take (FIO_blockID_to_blockSize (g_blockSizeId g)) (finput (c_io st))))
                   (sizeof_ptr e) key_local nonce)"
  by (auto simp: compress_iteration_def fread_def XXH32_update_def Let_def
      split: if_splits sum.splits option.splits prod.splits)

text \<open>
  Claim C6. The checksum written is that of the bytes read from the source. The code
  updates the hash with \<^verbatim>\<open>in_buff\<close> after
  \<^verbatim>\<open>salsa20(in_buff, sizeof(in_buff), key, nonce)\<close> has rewritten the first
  \<^verbatim>\<open>sizeof(char*)\<close> bytes of every block (\<open>compress_iteration_hash\<close>), although the
  comment above the function describes the checksum as that "of the original data". With a
  cipher that xors 0x5A, the file 0x41 gets the checksum block of the byte 0x1B,
  which is not the checksum block of 0x41.
\<close>

theorem C6_checksum_is_taken_after_the_cipher:
  "FIO_compressFilename xor_externals default_config (one_file ''in'' [0x41]) ''packed'' ''in''
       None
     = Inr (12, \<lparr> finput = [],
                   foutput = [0x09, 0x23, 0x3E, 0x18, 0x05, 0x40, 0x00, 0x01, 0x1B]
                               @ checksum_block (XXH32 xor_externals [0x1B] FSE_CHECKSUM_SEED),
                   space = 999988, finput_open = False, foutput_open = False \<rparr>)
   \<and> checksum_block (XXH32 xor_externals [0x1B] FSE_CHECKSUM_SEED) = [0xC0, 0x00, 0x00]
   \<and> checksum_block (XXH32 xor_externals [0x41] FSE_CHECKSUM_SEED) = [0xC0, 0x00, 0x02]"
  by (simp add: model_defs demo_defs)

subsection \<open>The decoder\<close>

lemma get_fileHandle_Inr:
  "get_fileHandle e g w input_filename output_filename = Inr io
     \<Longrightarrow> foutput io = [] \<and> finput_open io \<and> foutput_open io"
  unfolding get_fileHandle_def Let_def
  by (auto split: if_splits option.splits list.splits)

text \<open>
  Claim C7, as amended. When the first five bytes of the source are there and the
  magic number is none of the three known ones, \<^verbatim>\<open>FIO_decompressFilename\<close> ends in
  \<^verbatim>\<open>EXM_THROW(31, ...)\<close>, that is \<^verbatim>\<open>exit(31)\<close>, with nothing written to the destination.
  It does not close a handle on this path: both streams are open when \<^verbatim>\<open>exit\<close> is
  called, and the function never returns to its caller.
\<close>

theorem C7_unknown_magic_exits_with_handles_open:
  assumes "get_fileHandle e g w input_filename output_filename = Inr io0"
      and "FIO_FRAMEHEADERSIZE \<le> length (finput io0)"
      and "FIO_readLE32 (take FIO_FRAMEHEADERSIZE (finput io0))
             \<notin> {FIO_magicNumber_fse, FIO_magicNumber_huff0, FIO_magicNumber_zlibh}"
  shows "FIO_decompressFilename e g w output_filename input_filename password
           = Inl (Exit 31, io0\<lparr>finput := drop FIO_FRAMEHEADERSIZE (finput io0)\<rparr>)
         \<and> foutput io0 = [] \<and> finput_open io0 \<and> foutput_open io0"
proof -
  from assms(3) have "select_decompressor e (FIO_readLE32 (take FIO_FRAMEHEADERSIZE (finput io0))) = None"
    by (simp add: select_decompressor_def)
  with assms(1,2) have "FIO_decompressFilename e g w output_filename input_filename password
           = Inl (Exit 31, io0\<lparr>finput := drop FIO_FRAMEHEADERSIZE (finput io0)\<rparr>)"
    by (simp add: FIO_decompressFilename_def FIO_decompressFilename_run_def fread_def Let_def)
  with get_fileHandle_Inr [OF assms(1)] show ?thesis by simp
qed

text \<open>The hypotheses of C7 hold for a source of five bytes.\<close>

theorem C7_witness:
  "FIO_decompressFilename demo_externals default_config
      (one_file ''packed'' [1, 2, 3, 4, 5]) ''out'' ''packed'' None
     = Inl (Exit 31, \<lparr> finput = [], foutput = [], space = 1000000, finput_open = True,
                        foutput_open = True \<rparr>)"
proof -
  let ?io0 = "\<lparr> finput = [1, 2, 3, 4, 5 :: byte], foutput = [], space = 1000000,
                 finput_open = True, foutput_open = True \<rparr>"
  have a: "get_fileHandle demo_externals default_config (one_file ''packed'' [1, 2, 3, 4, 5])
             ''packed'' ''out'' = Inr ?io0"
    by (simp add: get_fileHandle_def demo_defs Let_def)
  have b: "FIO_FRAMEHEADERSIZE \<le> length (finput ?io0)"
    by (simp add: FIO_FRAMEHEADERSIZE_def)
  have c: "FIO_readLE32 (take FIO_FRAMEHEADERSIZE (finput ?io0))
             \<notin> {FIO_magicNumber_fse, FIO_magicNumber_huff0, FIO_magicNumber_zlibh}"
    by (simp add: FIO_FRAMEHEADERSIZE_def FIO_readLE32_def FIO_magicNumber_fse_def
        FIO_magicNumber_huff0_def FIO_magicNumber_zlibh_def)
  from C7_unknown_magic_exits_with_handles_open [OF a b c, of None]
  show ?thesis by (simp add: FIO_FRAMEHEADERSIZE_def)
qed

text \<open>Claim C7 as stated asks for closed handles; at the exit both are open.\<close>

theorem C7_counterexample:
  "FIO_decompressFilename demo_externals default_config
      (one_file ''packed'' [1, 2, 3, 4, 5, 6, 7]) ''out'' ''packed'' None
     = Inl (Exit 31, \<lparr> finput = [6, 7], foutput = [], space = 1000000, finput_open = True,
                        foutput_open = True \<rparr>)"
  by (simp add: model_defs demo_defs)






text \<open>An RLE block that declares more than the block size is not rejected either:
  \<^verbatim>\<open>memset(out_buff, in_buff[0], rSize)\<close> runs past the end of \<^verbatim>\<open>out_buff\<close>.\<close>

lemma oversized_rle_block_overruns:
  assumes "d_in_buff st ! d_ip st = push_bit 6 (bType_code bt_rle)"
      and "length (d_in_buff st) = blockSize + FIO_maxBlockHeaderSize"
      and "length (d_out_buff st) = blockSize"
      and "finput (d_io st) = [hi, lo, b, nxt] @ rest"
      and "blockSize < unat hi * 256 + unat lo"
  shows "decompress_iteration e blockSize decompressor password st
           = Inl (BufferOverrun, (d_io st)\<lparr>finput := rest\<rparr>)"
  using assms
  by (simp add: decompress_iteration_def decode_header_def fread_buf_def fread_def
      decode_block_def store_def bType_of_code_def BIT5_def BIT6_def BIT7_def
      FIO_maxBlockHeaderSize_def Let_def)

text \<open>\<^verbatim>\<open>in_buff\<close> holds the block size and 5 bytes more: a Raw block that declares more
  than the block size and 4 bytes is not rejected either, and
  \<^verbatim>\<open>fread(in_buff, 1, cSize + 1, finput)\<close> runs past the end of \<^verbatim>\<open>in_buff\<close>.\<close>

lemma oversized_raw_block_overruns:
  assumes "d_in_buff st ! d_ip st = push_bit 6 (bType_code bt_raw)"
      and "length (d_in_buff st) = blockSize + FIO_maxBlockHeaderSize"
      and "finput (d_io st) = [hi, lo] @ bytes"
      and "blockSize + 4 < unat hi * 256 + unat lo"
      and "unat hi * 256 + unat lo < length bytes"
  shows "decompress_iteration e blockSize decompressor password st
           = Inl (BufferOverrun,
                (d_io st)\<lparr>finput := drop (unat hi * 256 + unat lo + 1) bytes\<rparr>)"
  using assms
  by (simp add: decompress_iteration_def decode_header_def fread_buf_def fread_def
      decode_block_def store_def bType_of_code_def BIT5_def BIT6_def BIT7_def
      FIO_maxBlockHeaderSize_def Let_def)

subsection \<open>The buffered decoding loop\<close>

text \<open>
  Claim C8. Let a call of \<^verbatim>\<open>ZBUFF_decompressContinue\<close> ask for \<open>toRead\<close> more bytes,
  \<open>toRead\<close> not 0. Then the turn of the loop does not leave the loop as finished. If
  it goes on to a next call, exactly \<open>toRead\<close> bytes have been read from the source
  to the start of \<^verbatim>\<open>srcBuffer\<close>, they are the bytes the next call is given, and
  \<open>toRead\<close> is within the capacity of the buffer. It does go on when the output was
  written, the input was consumed, \<open>toRead\<close> fits the buffer and the source holds
  that many bytes. If \<open>toRead\<close> exceeds the capacity, the turn ends in
  \<^verbatim>\<open>EXM_THROW\<close>: 34 ("too large block"), or 37 or 38 when one of the two earlier
  checks fails first.
\<close>

theorem C8_refill_exactly_or_fail:
  assumes scr: "scrambler_func e passwordValue (zd_index st) = Inr scrambler"
      and call: "ZBUFF_decompressContinue z (dr_dctx (zd_ress st)) (dr_dstBufferSize (zd_ress st))
                   (take (zd_readSize st) (dr_srcBuffer (zd_ress st))) scrambler
                 = Some (dctx, decoded, inSize, toRead)"
      and nz: "toRead \<noteq> 0"
  shows "(\<forall>st'. FIO_decompressFrame_iteration e z passwordValue st = Inr (Continue st') \<longrightarrow>
            zd_readSize st' = toRead
            \<and> toRead \<le> length (finput (zd_io st))
            \<and> take (zd_readSize st') (dr_srcBuffer (zd_ress st')) = take toRead (finput (zd_io st))
            \<and> finput (zd_io st') = drop toRead (finput (zd_io st))
            \<and> toRead \<le> dr_srcBufferSize (zd_ress st))
       \<and> (\<forall>st'. FIO_decompressFrame_iteration e z passwordValue st \<noteq> Inr (Break st'))
       \<and> (length decoded \<le> space (zd_io st) \<and> size_t_sub (zd_readSize st) inSize = 0
            \<and> toRead \<le> dr_srcBufferSize (zd_ress st) \<and> toRead \<le> length (finput (zd_io st))
          \<longrightarrow> (\<exists>st'. FIO_decompressFrame_iteration e z passwordValue st = Inr (Continue st')))
       \<and> (dr_srcBufferSize (zd_ress st) < toRead
          \<longrightarrow> FIO_decompressFrame_iteration e z passwordValue st
                \<in> {Inl (Exit 37), Inl (Exit 38), Inl (Exit 34)})"
  using assms
  by (auto simp: FIO_decompressFrame_iteration_def fread_def fwrite_def store_def Let_def
      split: if_splits)

text \<open>The hypotheses of C8 hold for a codec that asks for 2 bytes, and for one that
  asks for 1000 with a buffer of 16.\<close>

theorem C8_witness:
  "(\<exists>st'. FIO_decompressFrame_iteration demo_externals (store_zbuff 2) None
             \<lparr> zd_io = \<lparr> finput = [7, 8, 9], foutput = [], space = 100, finput_open = True,
                         foutput_open = True \<rparr>,
               zd_ress = \<lparr> dr_srcBuffer = [1, 2, 3, 4] @ replicate 12 0, dr_srcBufferSize = 16,
                           dr_dstBuffer = replicate 32 0, dr_dstBufferSize = 32,
                           dr_dictBuffer = [], dr_dictBufferSize = 0, dr_dctx = 0 \<rparr>,
               zd_readSize = 4, zd_frameSize = 0, zd_index = 0 \<rparr> = Inr (Continue st')
          \<and> zd_readSize st' = 2
          \<and> take (zd_readSize st') (dr_srcBuffer (zd_ress st')) = [7, 8]
          \<and> finput (zd_io st') = [9])
   \<and> FIO_decompressFrame_iteration demo_externals (store_zbuff 1000) None
             \<lparr> zd_io = \<lparr> finput = [7, 8, 9], foutput = [], space = 100, finput_open = True,
                         foutput_open = True \<rparr>,
               zd_ress = \<lparr> dr_srcBuffer = [1, 2, 3, 4] @ replicate 12 0, dr_srcBufferSize = 16,
                           dr_dstBuffer = replicate 32 0, dr_dstBufferSize = 32,
                           dr_dictBuffer = [], dr_dictBufferSize = 0, dr_dctx = 0 \<rparr>,
               zd_readSize = 4, zd_frameSize = 0, zd_index = 0 \<rparr> = Inl (Exit 34)"
proof -
  let ?st = "\<lparr> zd_io = \<lparr> finput = [7, 8, 9 :: byte], foutput = [], space = 100,
                         finput_open = True, foutput_open = True \<rparr>,
               zd_ress = \<lparr> dr_srcBuffer = [1, 2, 3, 4] @ replicate 12 0, dr_srcBufferSize = 16,
                           dr_dstBuffer = replicate 32 0, dr_dstBufferSize = 32,
                           dr_dictBuffer = [], dr_dictBufferSize = 0, dr_dctx = (0 :: nat) \<rparr>,
               zd_readSize = 4, zd_frameSize = 0, zd_index = 0 \<rparr>"
  have s: "scrambler_func demo_externals None (zd_index ?st) = Inr 0"
    by (simp add: scrambler_func_def empty_scrambler_def)
  have c: "ZBUFF_decompressContinue (store_zbuff want) (dr_dctx (zd_ress ?st))
             (dr_dstBufferSize (zd_ress ?st))
             (take (zd_readSize ?st) (dr_srcBuffer (zd_ress ?st))) 0
           = Some (1, [], 4, want)" for want
    by (simp add: store_zbuff_def)
  from C8_refill_exactly_or_fail [OF s c [of 2]] C8_refill_exactly_or_fail [OF s c [of 1000]]
  show ?thesis
    by (simp add: size_t_sub_def FIO_decompressFrame_iteration_def scrambler_func_def
        empty_scrambler_def store_zbuff_def fwrite_def fread_def store_def Let_def)
qed

subsection \<open>What the codec of the buffered compression receives\<close>

lemma blocks_Nil: "take n xs = [] \<Longrightarrow> blocks n xs = []"
  by (subst blocks.simps) auto

lemma blocks_Cons: "take n xs \<noteq> [] \<Longrightarrow> blocks n xs = take n xs # blocks n (drop n xs)"
  by (subst blocks.simps) auto

lemma take_min_length: "take (min (length xs) n) xs = take n xs"
  by (simp add: min_def)

lemma upt_add_Suc: "[i..<Suc (i + k)] = i # [Suc i..<Suc (i + k)]"
  by (simp add: upt_conv_Cons del: upt_Suc)

lemma log_call_snoc: "log_call x (F @ [cur]) = F @ [cur @ [x]]"
  by (simp add: log_call_def)

lemma logging_iteration_Break:
  assumes "zstd_compress_iteration e (logging_zbuff z) passwordValue st = Inr (Break st')"
  shows "frames_received (cr_ctx (zc_ress st')) = frames_received (cr_ctx (zc_ress st))
         \<and> cr_srcBufferSize (zc_ress st') = cr_srcBufferSize (zc_ress st)
         \<and> take (cr_srcBufferSize (zc_ress st)) (finput (zc_io st)) = []"
  using assms
  by (auto simp: zstd_compress_iteration_def fread_def Let_def
      split: sum.splits option.splits if_splits prod.splits)

lemma logging_iteration_Continue:
  assumes "zstd_compress_iteration e (logging_zbuff z) passwordValue st = Inr (Continue st')"
  shows "\<exists>scrambler. scrambler_func e passwordValue (zc_index st) = Inr scrambler
           \<and> frames_received (cr_ctx (zc_ress st'))
               = log_call (take (cr_srcBufferSize (zc_ress st)) (finput (zc_io st)), scrambler)
                   (frames_received (cr_ctx (zc_ress st)))
           \<and> zc_index st' = zc_index st + 1
           \<and> finput (zc_io st') = drop (cr_srcBufferSize (zc_ress st)) (finput (zc_io st))
           \<and> take (cr_srcBufferSize (zc_ress st)) (finput (zc_io st)) \<noteq> []
           \<and> cr_srcBufferSize (zc_ress st') = cr_srcBufferSize (zc_ress st)"
proof -
  obtain c frames where ctx: "cr_ctx (zc_ress st) = (c, frames)" by (cases "cr_ctx (zc_ress st)")
  from assms ctx show ?thesis
    by (auto simp: zstd_compress_iteration_def logging_zbuff_def frames_received_def fread_def
        fwrite_def store_def Let_def take_min_length
        split: sum.splits option.splits if_splits)
qed

lemma logging_loop:
  "Z = logging_zbuff z \<Longrightarrow> zstd_compress_loop e Z passwordValue st = Inr st'
     \<Longrightarrow> frames_received (cr_ctx (zc_ress st)) = F @ [cur]
     \<Longrightarrow> \<exists>new. frames_received (cr_ctx (zc_ress st')) = F @ [cur @ new]
             \<and> map fst new = blocks (cr_srcBufferSize (zc_ress st)) (finput (zc_io st))
             \<and> map (\<lambda>(src, scrambler). Inr scrambler) new
                 = map (scrambler_func e passwordValue) [zc_index st..<zc_index st + length new]
             \<and> cr_srcBufferSize (zc_ress st') = cr_srcBufferSize (zc_ress st)"
proof (induction e Z passwordValue st arbitrary: cur rule: zstd_compress_loop.induct)
  case (1 e Z passwordValue st)
  let ?n = "cr_srcBufferSize (zc_ress st)"
  show ?case
  proof (cases "zstd_compress_iteration e Z passwordValue st")
    case (Inl f)
    with "1.prems"(2) show ?thesis by simp
  next
    case (Inr r)
    show ?thesis
    proof (cases r)
      case (Break st1)
      with Inr "1.prems"(2) have "st' = st1" by simp
      with Inr Break "1.prems"(1) logging_iteration_Break [of e z passwordValue st st']
      have "frames_received (cr_ctx (zc_ress st')) = frames_received (cr_ctx (zc_ress st))"
        "cr_srcBufferSize (zc_ress st') = ?n" "take ?n (finput (zc_io st)) = []"
        by simp_all
      with "1.prems"(3) show ?thesis
        by (intro exI [of _ "[]"]) (simp add: blocks_Nil)
    next
      case (Continue st1)
      with Inr "1.prems"(1) logging_iteration_Continue [of e z passwordValue st st1]
      obtain scrambler where
        s: "scrambler_func e passwordValue (zc_index st) = Inr scrambler"
           "frames_received (cr_ctx (zc_ress st1))
              = log_call (take ?n (finput (zc_io st)), scrambler)
                  (frames_received (cr_ctx (zc_ress st)))"
           "zc_index st1 = zc_index st + 1"
           "finput (zc_io st1) = drop ?n (finput (zc_io st))"
           "take ?n (finput (zc_io st)) \<noteq> []"
           "cr_srcBufferSize (zc_ress st1) = ?n"
        by auto
      from s(2) "1.prems"(3) have
        f1: "frames_received (cr_ctx (zc_ress st1))
               = F @ [cur @ [(take ?n (finput (zc_io st)), scrambler)]]"
        by (simp add: log_call_snoc)
      from Inr Continue "1.prems"(2) have l: "zstd_compress_loop e Z passwordValue st1 = Inr st'"
        by simp
      from "1.IH" [OF Inr Continue "1.prems"(1) l f1] obtain new where
        n: "frames_received (cr_ctx (zc_ress st'))
              = F @ [(cur @ [(take ?n (finput (zc_io st)), scrambler)]) @ new]"
           "map fst new = blocks (cr_srcBufferSize (zc_ress st1)) (finput (zc_io st1))"
           "map (\<lambda>(src, scrambler). Inr scrambler) new
              = map (scrambler_func e passwordValue) [zc_index st1..<zc_index st1 + length new]"
           "cr_srcBufferSize (zc_ress st') = cr_srcBufferSize (zc_ress st1)"
        by blast
      let ?new = "(take ?n (finput (zc_io st)), scrambler) # new"
      have "frames_received (cr_ctx (zc_ress st')) = F @ [cur @ ?new]"
        using n(1) by simp
      moreover have "map fst ?new = blocks ?n (finput (zc_io st))"
        using n(2) s(4,5,6) by (simp add: blocks_Cons)
      moreover have "map (\<lambda>(src, scrambler). Inr scrambler) ?new
              = map (scrambler_func e passwordValue) [zc_index st..<zc_index st + length ?new]"
        using n(3) s(1,3) by (simp add: upt_add_Suc del: upt_Suc)
      moreover have "cr_srcBufferSize (zc_ress st') = ?n"
        using n(4) s(6) by simp
      ultimately show ?thesis by blast
    qed
  qed
qed

text \<open>One file: when the files could be opened, the codec has received one more
  frame, made of the blocks of the source in order, block \<open>i\<close> with the scrambler of
  index \<open>i\<close>; when they could not, it has received nothing.\<close>

lemma logging_extRess:
  assumes "FIO_compressZstdFilename_extRess e (logging_zbuff z) g w ress dstFileName srcFileName
             cLevel passwordValue = Inr (r, w', ress')"
  shows "cr_srcBufferSize ress' = cr_srcBufferSize ress
         \<and> (r = 1 \<and> frames_received (cr_ctx ress') = frames_received (cr_ctx ress)
            \<or> r = 0 \<and> (\<exists>frame w1 io0.
                  FIO_getFiles e g w dstFileName srcFileName = Inr (0, w1, Some io0)
                  \<and> frames_received (cr_ctx ress') = frames_received (cr_ctx ress) @ [frame]
                  \<and> map fst frame = blocks (cr_srcBufferSize ress) (finput io0)
                  \<and> map (\<lambda>(src, scrambler). Inr scrambler) frame
                      = map (scrambler_func e passwordValue) [0..<length frame]))"
proof (cases "FIO_getFiles e g w dstFileName srcFileName")
  case (Inl f)
  with assms show ?thesis by (simp add: FIO_compressZstdFilename_extRess_def)
next
  case (Inr x)
  obtain r0 w1 o0 where x: "x = (r0, w1, o0)" by (cases x)
  show ?thesis
  proof (cases o0)
    case None
    with assms Inr x show ?thesis by (simp add: FIO_compressZstdFilename_extRess_def)
  next
    case (Some io0)
    with Inr x have r0: "r0 = 0"
      by (auto simp: FIO_getFiles_def Let_def split: option.splits if_splits prod.splits)
    obtain c frames where ctx: "cr_ctx ress = (c, frames)" by (cases "cr_ctx ress")
    from assms Inr x Some ctx obtain c2 st cx where
      l: "zstd_compress_loop e (logging_zbuff z) passwordValue
            \<lparr> zc_io = io0, zc_ress = ress\<lparr>cr_ctx := (c2, frames @ [[]])\<rparr>, zc_index = 0,
              zc_filesize = 0, zc_compressedfilesize = 0 \<rparr> = Inr st"
      and e: "ress' = (zc_ress st)\<lparr>cr_ctx := (cx, frames_received (cr_ctx (zc_ress st)))\<rparr>"
        "r = 0"
      unfolding FIO_compressZstdFilename_extRess_def Let_def
      by (auto simp: logging_zbuff_def frames_received_def simp del: zstd_compress_loop.simps
          split: sum.splits option.splits if_splits prod.splits)
    from logging_loop [OF refl l, of frames "[]"] obtain new where
      n: "frames_received (cr_ctx (zc_ress st)) = frames @ [new]"
         "map fst new = blocks (cr_srcBufferSize ress) (finput io0)"
         "map (\<lambda>(src, scrambler). Inr scrambler) new
            = map (scrambler_func e passwordValue) [0..<length new]"
         "cr_srcBufferSize (zc_ress st) = cr_srcBufferSize ress"
      by (auto simp: frames_received_def)
    from n e ctx Inr x Some r0 show ?thesis
      by (auto simp: frames_received_def)
  qed
qed

lemma logging_compress_files:
  "compress_files e (logging_zbuff z) g suffix compressionLevel names b = Inr b'
     \<Longrightarrow> cr_srcBufferSize (b_ress b') = cr_srcBufferSize (b_ress b)
         \<and> (\<exists>new. frames_received (cr_ctx (b_ress b')) = frames_received (cr_ctx (b_ress b)) @ new
               \<and> length new + b_missed_files b' = length names + b_missed_files b
               \<and> (\<forall>frame \<in> set new.
                     (\<exists>data. map fst frame = blocks (cr_srcBufferSize (b_ress b)) data)
                     \<and> map (\<lambda>(src, scrambler). Inr scrambler) frame
                         = map (scrambler_func e (Some ''TODO passwordValue''))
                             [0..<length frame]))"
proof (induction names arbitrary: b)
  case Nil
  then show ?case by simp
next
  case (Cons name names)
  let ?dfn = "if b_dfnSize b \<le> strlen name + strlen suffix + 1 then strlen name + 20
              else b_dfnSize b"
  from Cons.prems obtain r w ress where
    x: "FIO_compressZstdFilename_extRess e (logging_zbuff z) g (b_world b) (b_ress b)
          (c_str name @ c_str suffix) name compressionLevel (Some ''TODO passwordValue'')
        = Inr (r, w, ress)"
    and rest: "compress_files e (logging_zbuff z) g suffix compressionLevel names
          \<lparr> b_missed_files = b_missed_files b + r, b_dfnSize = ?dfn, b_world = w,
            b_ress = ress \<rparr> = Inr b'"
    by (auto simp: Let_def split: if_splits sum.splits)
  let ?P = "\<lambda>frame. (\<exists>data. map fst frame = blocks (cr_srcBufferSize (b_ress b)) data)
                     \<and> map (\<lambda>(src, scrambler). Inr scrambler) frame
                         = map (scrambler_func e (Some ''TODO passwordValue''))
                             [0..<length frame]"
  from logging_extRess [OF x] obtain first where
    f: "cr_srcBufferSize ress = cr_srcBufferSize (b_ress b)"
       "frames_received (cr_ctx ress) = frames_received (cr_ctx (b_ress b)) @ first"
       "length first + r = 1" "\<forall>frame \<in> set first. ?P frame"
    by (elim conjE disjE exE) (force intro: that [of "[]"], force intro: that [of "[frame]" for frame])
  from Cons.IH [OF rest] f(1) obtain new where
    n: "cr_srcBufferSize (b_ress b') = cr_srcBufferSize (b_ress b)"
       "frames_received (cr_ctx (b_ress b')) = frames_received (cr_ctx ress) @ new"
       "length new + b_missed_files b' = length names + (b_missed_files b + r)"
       "\<forall>frame \<in> set new. ?P frame"
    by auto
  from f n have "frames_received (cr_ctx (b_ress b'))
                   = frames_received (cr_ctx (b_ress b)) @ (first @ new)"
    "length (first @ new) + b_missed_files b' = length (name # names) + b_missed_files b"
    "\<forall>frame \<in> set (first @ new). ?P frame"
    by auto
  with n(1) show ?case by blast
qed

lemma strlen_TODO: "strlen ''TODO passwordValue'' = 18"
  by (simp add: strlen_def)

text \<open>A source that is a file other than the destination is read as it is in the
  world, and an operation changes no file but its destination.\<close>

lemma FIO_getFiles_source:
  assumes "FIO_getFiles e g w dstFileName srcFileName = Inr (r, w1, Some io0)"
    and "srcFileName \<noteq> stdinmark e" and "srcFileName \<noteq> dstFileName"
  shows "files w srcFileName = Some (finput io0)"
  using assms
  by (auto simp: FIO_getFiles_def Let_def split: option.splits if_splits prod.splits)

lemma FIO_getFiles_files:
  assumes "FIO_getFiles e g w dstFileName srcFileName = Inr (r, w1, o0)"
    and "x \<noteq> dstFileName"
  shows "files w1 x = files w x"
  using assms
  by (auto simp: FIO_getFiles_def overwrite_prompt_def getchar_def Let_def
      split: option.splits if_splits prod.splits list.splits)

lemma extRess_files:
  assumes "FIO_compressZstdFilename_extRess e z g w ress dstFileName srcFileName cLevel
             passwordValue = Inr (r, w', ress')"
    and "x \<noteq> dstFileName"
  shows "files w' x = files w x"
proof (cases "FIO_getFiles e g w dstFileName srcFileName")
  case (Inl f)
  with assms show ?thesis by (simp add: FIO_compressZstdFilename_extRess_def)
next
  case (Inr y)
  obtain r0 w1 o0 where y: "y = (r0, w1, o0)" by (cases y)
  with Inr assms(2) have w1: "files w1 x = files w x" by (simp add: FIO_getFiles_files)
  show ?thesis
  proof (cases o0)
    case None
    with assms Inr y w1 show ?thesis by (auto simp: FIO_compressZstdFilename_extRess_def)
  next
    case (Some io0)
    with assms(1) Inr y obtain io where "w' = close_files e w1 dstFileName srcFileName io"
      unfolding FIO_compressZstdFilename_extRess_def Let_def
      by (auto simp del: zstd_compress_loop.simps
          split: sum.splits option.splits if_splits prod.splits)
    with w1 assms(2) show ?thesis by (simp add: close_files_def Let_def)
  qed
qed

lemma Suc_image_shift: "{j. Suc j \<in> Suc ` I} = I"
  by auto

lemma nths_Cons_keep: "nths (x # xs) (insert 0 (Suc ` I)) = x # nths xs I"
  by (simp add: nths_Cons Suc_image_shift)

lemma nths_Cons_skip: "nths (x # xs) (Suc ` I) = nths xs I"
  by (auto simp: nths_Cons Suc_image_shift)

lemma logging_compress_files_sources:
  assumes "compress_files e (logging_zbuff z) g suffix compressionLevel names b = Inr b'"
    and "\<forall>name \<in> set names. name \<noteq> stdinmark e
           \<and> (\<forall>a \<in> set names. c_str a @ c_str suffix \<noteq> name)"
  shows "\<exists>I new. frames_received (cr_ctx (b_ress b')) = frames_received (cr_ctx (b_ress b)) @ new
           \<and> list_all2 (\<lambda>frame name. \<exists>data. files (b_world b) name = Some data
                 \<and> map fst frame = blocks (cr_srcBufferSize (b_ress b)) data) new (nths names I)"
  using assms
proof (induction names arbitrary: b)
  case Nil
  then show ?case by simp
next
  case (Cons name names)
  let ?dst = "c_str name @ c_str suffix"
  let ?dfn = "if b_dfnSize b \<le> strlen name + strlen suffix + 1 then strlen name + 20
              else b_dfnSize b"
  let ?n = "cr_srcBufferSize (b_ress b)"
  let ?Q = "\<lambda>w frame name. \<exists>data. files w name = Some data \<and> map fst frame = blocks ?n data"
  from Cons.prems(2) have src: "name \<noteq> stdinmark e" "name \<noteq> ?dst"
    and tail: "\<forall>name \<in> set names. name \<noteq> stdinmark e
                 \<and> (\<forall>a \<in> set names. c_str a @ c_str suffix \<noteq> name)"
    and other: "\<forall>x \<in> set names. x \<noteq> ?dst"
    by auto
  from Cons.prems(1) obtain r w ress where
    x: "FIO_compressZstdFilename_extRess e (logging_zbuff z) g (b_world b) (b_ress b)
          ?dst name compressionLevel (Some ''TODO passwordValue'') = Inr (r, w, ress)"
    and rest: "compress_files e (logging_zbuff z) g suffix compressionLevel names
          \<lparr> b_missed_files = b_missed_files b + r, b_dfnSize = ?dfn, b_world = w,
            b_ress = ress \<rparr> = Inr b'"
    by (auto simp: Let_def split: if_splits sum.splits)
  from Cons.IH [OF rest] tail obtain I new where
    n: "frames_received (cr_ctx (b_ress b')) = frames_received (cr_ctx ress) @ new"
       "list_all2 (\<lambda>frame name. \<exists>data. files w name = Some data
           \<and> map fst frame = blocks (cr_srcBufferSize ress) data) new (nths names I)"
    by auto
  have same: "files w x = files (b_world b) x" if "x \<in> set (nths names I)" for x
  proof -
    from that have "x \<in> set names" by (auto dest: in_set_nthsD)
    with other have "x \<noteq> ?dst" by simp
    with x show ?thesis by (rule extRess_files)
  qed
  from logging_extRess [OF x] have size: "cr_srcBufferSize ress = ?n" by simp
  from n(2) have new: "list_all2 (?Q (b_world b)) new (nths names I)"
    by (rule list.rel_mono_strong) (simp add: same size)
  from logging_extRess [OF x] consider
    (missed) "frames_received (cr_ctx ress) = frames_received (cr_ctx (b_ress b))"
    | (opened) frame w1 io0 where
      "FIO_getFiles e g (b_world b) ?dst name = Inr (0, w1, Some io0)"
      "frames_received (cr_ctx ress) = frames_received (cr_ctx (b_ress b)) @ [frame]"
      "map fst frame = blocks ?n (finput io0)"
    by blast
  then show ?case
  proof cases
    case missed
    with n(1) new have "frames_received (cr_ctx (b_ress b'))
          = frames_received (cr_ctx (b_ress b)) @ new
        \<and> list_all2 (?Q (b_world b)) new (nths (name # names) (Suc ` I))"
      by (simp add: nths_Cons_skip)
    then show ?thesis by blast
  next
    case opened
    from FIO_getFiles_source [OF opened(1) src] opened(3)
    have "?Q (b_world b) frame name" by simp
    with opened(2) n(1) new have "frames_received (cr_ctx (b_ress b'))
          = frames_received (cr_ctx (b_ress b)) @ (frame # new)
        \<and> list_all2 (?Q (b_world b)) (frame # new) (nths (name # names) (insert 0 (Suc ` I)))"
      by (simp add: nths_Cons_keep)
    then show ?thesis by blast
  qed
qed

lemma FIO_createCResources_logging:
  assumes "FIO_createCResources e (logging_zbuff z) w dictFileName = Inr ress"
  shows "frames_received (cr_ctx ress) = []
         \<and> cr_srcBufferSize ress = ZBUFF_recommendedCInSize z"
  using assms
  by (auto simp: FIO_createCResources_def logging_zbuff_def frames_received_def
      split: option.splits sum.splits)

text \<open>
  Claim C9. A batch compression run of \<^verbatim>\<open>FIO_compressMultipleFilenames\<close> is observed
  at the codec: \<open>logging_zbuff z\<close> is any codec \<open>z\<close> that also keeps, frame by frame,
  the arguments of every call of \<^verbatim>\<open>ZBUFF_compressContinue\<close>. When the run returns,
  the codec has received one frame for each file that was not missed, and in every
  frame call number \<open>i\<close> carried the scrambler
  \<^verbatim>\<open>simlple_scrambler("TODO passwordValue", i)\<close>, the value derived from the 18
  characters of the literal; the calls of a frame carry the successive blocks of
  \<^verbatim>\<open>srcBufferSize\<close> bytes of one input. When no source is standard input and no
  destination name is a source of the batch, the frames are, in the order of the
  table, those of the files that were opened, and the blocks of a frame are all the
  blocks of that file as it was before the run. Neither \<^verbatim>\<open>empty_scrambler\<close> nor a
  secret of the caller takes part: the function has no such parameter.
\<close>

theorem C9_batch_compression_uses_the_fixed_secret:
  assumes run: "FIO_compressMultipleFilenames_run e (logging_zbuff z) g w inFileNamesTable suffix
                  dictFileName compressionLevel = Inr b"
  shows "length (frames_received (cr_ctx (b_ress b))) + b_missed_files b
           = length inFileNamesTable
         \<and> (\<forall>frame \<in> set (frames_received (cr_ctx (b_ress b))).
               map (\<lambda>(src, scrambler). Inr scrambler) frame
                 = map (simlple_scrambler e 18 ''TODO passwordValue'') [0..<length frame]
               \<and> (\<exists>data. map fst frame = blocks (ZBUFF_recommendedCInSize z) data))
         \<and> ((\<forall>name \<in> set inFileNamesTable. name \<noteq> stdinmark e
                 \<and> (\<forall>a \<in> set inFileNamesTable. c_str a @ c_str suffix \<noteq> name))
              \<longrightarrow> (\<exists>I. list_all2
                         (\<lambda>frame name. \<exists>data. files w name = Some data
                            \<and> map fst frame = blocks (ZBUFF_recommendedCInSize z) data)
                         (frames_received (cr_ctx (b_ress b))) (nths inFileNamesTable I)))"
proof -
  from run obtain ress where
    c: "FIO_createCResources e (logging_zbuff z) w dictFileName = Inr ress"
    and l: "compress_files e (logging_zbuff z) g suffix compressionLevel inFileNamesTable
              \<lparr> b_missed_files = 0, b_dfnSize = FNSPACE, b_world = w, b_ress = ress \<rparr> = Inr b"
    by (auto simp: FIO_compressMultipleFilenames_run_def split: sum.splits)
  note r = FIO_createCResources_logging [OF c]
  from logging_compress_files [OF l] r have
    "length (frames_received (cr_ctx (b_ress b))) + b_missed_files b = length inFileNamesTable"
    "\<forall>frame \<in> set (frames_received (cr_ctx (b_ress b))).
       map (\<lambda>(src, scrambler). Inr scrambler) frame
         = map (simlple_scrambler e 18 ''TODO passwordValue'') [0..<length frame]
       \<and> (\<exists>data. map fst frame = blocks (ZBUFF_recommendedCInSize z) data)"
    by (auto simp: scrambler_func_def strlen_TODO)
  moreover from logging_compress_files_sources [OF l] r have
    "(\<forall>name \<in> set inFileNamesTable. name \<noteq> stdinmark e
         \<and> (\<forall>a \<in> set inFileNamesTable. c_str a @ c_str suffix \<noteq> name))
     \<longrightarrow> (\<exists>I. list_all2
               (\<lambda>frame name. \<exists>data. files w name = Some data
                  \<and> map fst frame = blocks (ZBUFF_recommendedCInSize z) data)
               (frames_received (cr_ctx (b_ress b))) (nths inFileNamesTable I))"
    by auto
  ultimately show ?thesis by blast
qed

text \<open>A table of two names, the first a file of 33 bytes, the second missing: one
  frame of three calls, with the scramblers 40, 0 and 38.\<close>

theorem C9_witness:
  "map_sum id (\<lambda>b. (b_missed_files b, frames_received (cr_ctx (b_ress b))))
     (FIO_compressMultipleFilenames_run demo_externals (logging_zbuff (store_zbuff 0))
        default_config (one_file ''a'' (replicate 16 1 @ replicate 16 2 @ [3])) [''a'', ''b'']
        ''.zst'' None 1)
     = Inr (1, [[(replicate 16 1, 40), (replicate 16 2, 0), ([3], 38)]])
   \<and> map Inr [40, 0, 38 :: U32]
       = map (simlple_scrambler demo_externals 18 ''TODO passwordValue'') [0..<3]
   \<and> [replicate 16 1, replicate 16 2, [3]]
       = blocks 16 (replicate 16 1 @ replicate 16 2 @ [3 :: byte])"
proof -
  let ?data = "replicate 16 1 @ replicate 16 2 @ [3 :: byte]"
  let ?frame = "[(replicate 16 (1 :: byte), 40 :: U32), (replicate 16 2, 0), ([3], 38)]"
  have "\<exists>b. FIO_compressMultipleFilenames_run demo_externals (logging_zbuff (store_zbuff 0))
          default_config (one_file ''a'' ?data) [''a'', ''b''] ''.zst'' None 1 = Inr b
        \<and> b_missed_files b = 1 \<and> frames_received (cr_ctx (b_ress b)) = [?frame]"
    by (simp add: FIO_compressMultipleFilenames_run_def FIO_createCResources_def
        FIO_freeCResources_def FIO_loadFile_def FIO_compressZstdFilename_extRess_def
        FIO_getFiles_def FIO_getFileSize2_def close_files_def zstd_compress_iteration_def
        logging_zbuff_def log_call_def frames_received_def store_zbuff_def FNSPACE_def
        c_str_def strlen_def simlple_scrambler_def char_at_def char_to_unsigned_def c_abs_def
        model_defs demo_defs)
  then obtain b where
    r: "FIO_compressMultipleFilenames_run demo_externals (logging_zbuff (store_zbuff 0))
          default_config (one_file ''a'' ?data) [''a'', ''b''] ''.zst'' None 1 = Inr b"
    and m: "b_missed_files b = 1"
    and f: "frames_received (cr_ctx (b_ress b)) = [?frame]"
    by blast
  note t = C9_batch_compression_uses_the_fixed_secret [OF r]
  from t f have s: "map Inr [40, 0, 38 :: U32]
      = map (simlple_scrambler demo_externals 18 ''TODO passwordValue'') [0..<3]"
    by (simp add: numeral_3_eq_3)
  from t f obtain I where
    "list_all2 (\<lambda>frame name. \<exists>data. files (one_file ''a'' ?data) name = Some data
        \<and> map fst frame = blocks 16 data) [?frame] (nths [''a'', ''b''] I)"
    by (auto simp: demo_externals_def c_str_def store_zbuff_def logging_zbuff_def)
  then obtain name where "name \<in> set (nths [''a'', ''b''] I)"
    and "\<exists>data. files (one_file ''a'' ?data) name = Some data
           \<and> map fst ?frame = blocks 16 data"
    by (auto simp: list_all2_Cons1)
  then have "map fst ?frame = blocks 16 ?data"
    by (auto simp: one_file_def split: if_splits)
  with r m f s show ?thesis by simp
qed

subsection \<open>The recording codec and the codec it records\<close>

lemma logging_iteration_same:
  "zstd_compress_iteration e z passwordValue (state_without_frames st)
     = map_sum id (\<lambda>l. case l of Break s \<Rightarrow> Break (state_without_frames s)
                               | Continue s \<Rightarrow> Continue (state_without_frames s))
         (zstd_compress_iteration e (logging_zbuff z) passwordValue st)"
proof -
  obtain c frames where ctx: "cr_ctx (zc_ress st) = (c, frames)" by (cases "cr_ctx (zc_ress st)")
  then show ?thesis
    by (auto simp: zstd_compress_iteration_def logging_zbuff_def state_without_frames_def
        without_frames_def fread_def fwrite_def Let_def
        split: sum.splits option.splits if_splits prod.splits)
qed

lemma logging_loop_same:
  "Z = logging_zbuff z \<Longrightarrow>
   zstd_compress_loop e z passwordValue (state_without_frames st)
     = map_sum id state_without_frames (zstd_compress_loop e Z passwordValue st)"
proof (induction e Z passwordValue st rule: zstd_compress_loop.induct)
  case (1 e Z passwordValue st)
  show ?case
  proof (cases "zstd_compress_iteration e Z passwordValue st")
    case (Inl f)
    with "1.prems" logging_iteration_same [of e z passwordValue st] show ?thesis by simp
  next
    case (Inr r)
    show ?thesis
    proof (cases r)
      case (Break st1)
      with Inr "1.prems" logging_iteration_same [of e z passwordValue st] show ?thesis by simp
    next
      case (Continue st1)
      with Inr "1.prems" logging_iteration_same [of e z passwordValue st]
        "1.IH" [OF Inr Continue "1.prems"]
      show ?thesis by simp
    qed
  qed
qed

lemma logging_extRess_same:
  "FIO_compressZstdFilename_extRess e z g w (without_frames ress) dstFileName srcFileName cLevel
       passwordValue
     = map_sum id (\<lambda>(r, w', ress'). (r, w', without_frames ress'))
         (FIO_compressZstdFilename_extRess e (logging_zbuff z) g w ress dstFileName srcFileName
            cLevel passwordValue)"
proof (cases "FIO_getFiles e g w dstFileName srcFileName")
  case (Inl f)
  then show ?thesis by (simp add: FIO_compressZstdFilename_extRess_def)
next
  case (Inr x)
  obtain r0 w1 o0 where x: "x = (r0, w1, o0)" by (cases x)
  show ?thesis
  proof (cases o0)
    case None
    with Inr x show ?thesis by (simp add: FIO_compressZstdFilename_extRess_def)
  next
    case (Some io0)
    obtain c frames where ctx: "cr_ctx ress = (c, frames)" by (cases "cr_ctx ress")
    let ?hint = "FIO_getFileSize2 w1 srcFileName + cr_dictBufferSize ress"
    show ?thesis
    proof (cases "ZBUFF_compressInit_advanced z c cLevel ?hint")
      case None
      with Inr x Some ctx show ?thesis
        by (simp add: FIO_compressZstdFilename_extRess_def logging_zbuff_def without_frames_def)
    next
      case c1: (Some ctx1)
      show ?thesis
      proof (cases "ZBUFF_compressWithDictionary z ctx1 (cr_dictBuffer ress)")
        case None
        with Inr x Some ctx c1 show ?thesis
          by (simp add: FIO_compressZstdFilename_extRess_def logging_zbuff_def
              without_frames_def)
      next
        case c2: (Some ctx2)
        let ?st = "\<lparr> zc_io = io0, zc_ress = ress\<lparr>cr_ctx := (ctx2, frames @ [[]])\<rparr>,
                     zc_index = 0, zc_filesize = 0, zc_compressedfilesize = 0 \<rparr>"
        have st: "state_without_frames ?st
                    = \<lparr> zc_io = io0, zc_ress = (without_frames ress)\<lparr>cr_ctx := ctx2\<rparr>,
                        zc_index = 0, zc_filesize = 0, zc_compressedfilesize = 0 \<rparr>"
          by (simp add: state_without_frames_def without_frames_def)
        note l = logging_loop_same [OF refl, of e z passwordValue ?st, unfolded st]
        show ?thesis
        proof (cases "zstd_compress_loop e (logging_zbuff z) passwordValue ?st")
          case (Inl f)
          with l Inr x Some ctx c1 c2 show ?thesis
            unfolding FIO_compressZstdFilename_extRess_def
            by (simp add: logging_zbuff_def without_frames_def del: zstd_compress_loop.simps)
        next
          case r: (Inr st')
          obtain c' frames' where ctx': "cr_ctx (zc_ress st') = (c', frames')"
            by (cases "cr_ctx (zc_ress st')")
          with r l Inr x Some ctx c1 c2 show ?thesis
            unfolding FIO_compressZstdFilename_extRess_def
            by (simp add: logging_zbuff_def without_frames_def state_without_frames_def Let_def
                del: zstd_compress_loop.simps split: prod.splits)
        qed
      qed
    qed
  qed
qed

lemma logging_compress_files_same:
  "compress_files e z g suffix compressionLevel names (batch_without_frames b)
     = map_sum id batch_without_frames
         (compress_files e (logging_zbuff z) g suffix compressionLevel names b)"
proof (induction names arbitrary: b)
  case Nil
  show ?case by simp
next
  case (Cons name names)
  define dfnSize where
    "dfnSize = (if b_dfnSize b \<le> strlen name + strlen suffix + 1 then strlen name + 20
                else b_dfnSize b)"
  have fields: "b_missed_files (batch_without_frames b) = b_missed_files b"
    "b_dfnSize (batch_without_frames b) = b_dfnSize b"
    "b_world (batch_without_frames b) = b_world b"
    "b_ress (batch_without_frames b) = without_frames (b_ress b)"
    by (simp_all add: batch_without_frames_def)
  note s = logging_extRess_same [of e z g "b_world b" "b_ress b" "c_str name @ c_str suffix"
      name compressionLevel "Some ''TODO passwordValue''"]
  have unfold: "compress_files e Z g suffix compressionLevel (name # names) B
      = (if dfnSize < strlen name + strlen suffix + 1 then Inl BufferOverrun
         else case FIO_compressZstdFilename_extRess e Z g (b_world B) (b_ress B)
                     (c_str name @ c_str suffix) name compressionLevel
                     (Some ''TODO passwordValue'') of
                Inl f \<Rightarrow> Inl f
              | Inr (r, w, ress) \<Rightarrow>
                  compress_files e Z g suffix compressionLevel names
                    \<lparr> b_missed_files = b_missed_files B + r, b_dfnSize = dfnSize, b_world = w,
                      b_ress = ress \<rparr>)"
    if "b_dfnSize B = b_dfnSize b" for Z :: "('x, 'd) zbuff" and B :: "'x batch"
    unfolding dfnSize_def compress_files.simps Let_def that ..
  show ?case
  proof (cases "FIO_compressZstdFilename_extRess e (logging_zbuff z) g (b_world b) (b_ress b)
              (c_str name @ c_str suffix) name compressionLevel (Some ''TODO passwordValue'')")
    case (Inl f)
    with s show ?thesis by (simp add: unfold fields del: compress_files.simps)
  next
    case (Inr y)
    obtain r w ress where y: "y = (r, w, ress)" by (cases y)
    let ?b = "\<lparr> b_missed_files = b_missed_files b + r, b_dfnSize = dfnSize, b_world = w,
                b_ress = ress \<rparr>"
    have "batch_without_frames ?b
            = \<lparr> b_missed_files = b_missed_files b + r, b_dfnSize = dfnSize, b_world = w,
                b_ress = without_frames ress \<rparr>"
      by (simp add: batch_without_frames_def)
    with Cons.IH [of ?b] Inr y s show ?thesis
      by (simp add: unfold fields del: compress_files.simps)
  qed
qed

text \<open>Keeping the calls changes nothing else: the run with \<open>logging_zbuff z\<close> returns
  what the run with \<open>z\<close> returns.\<close>

lemma logging_zbuff_same_run:
  "FIO_compressMultipleFilenames e (logging_zbuff z) g w inFileNamesTable suffix dictFileName
       compressionLevel
     = FIO_compressMultipleFilenames e z g w inFileNamesTable suffix dictFileName
         compressionLevel"
proof (cases "FIO_createCResources e (logging_zbuff z) w dictFileName")
  case (Inl f)
  then have "FIO_createCResources e z w dictFileName = Inl f"
    by (auto simp: FIO_createCResources_def logging_zbuff_def
        split: option.splits sum.splits)
  with Inl show ?thesis
    by (simp add: FIO_compressMultipleFilenames_def FIO_compressMultipleFilenames_run_def)
next
  case (Inr ress)
  then have c: "FIO_createCResources e z w dictFileName = Inr (without_frames ress)"
    by (auto simp: FIO_createCResources_def logging_zbuff_def without_frames_def
        split: option.splits sum.splits)
  let ?b = "\<lparr> b_missed_files = 0, b_dfnSize = FNSPACE, b_world = w, b_ress = ress \<rparr>"
  have b: "batch_without_frames ?b
             = \<lparr> b_missed_files = 0, b_dfnSize = FNSPACE, b_world = w,
                 b_ress = without_frames ress \<rparr>"
    by (simp add: batch_without_frames_def)
  note l = logging_compress_files_same [of e z g suffix compressionLevel inFileNamesTable ?b,
      unfolded b]
  show ?thesis
  proof (cases "compress_files e (logging_zbuff z) g suffix compressionLevel inFileNamesTable ?b")
    case (Inl f)
    with l Inr c show ?thesis
      by (simp add: FIO_compressMultipleFilenames_def FIO_compressMultipleFilenames_run_def)
  next
    case r: (Inr b')
    obtain c' frames' where "cr_ctx (b_ress b') = (c', frames')" by (cases "cr_ctx (b_ress b')")
    with r l Inr c show ?thesis
      by (simp add: FIO_compressMultipleFilenames_def FIO_compressMultipleFilenames_run_def
          FIO_freeCResources_def logging_zbuff_def batch_without_frames_def without_frames_def)
  qed
qed

end
